theory Spec2Isabelle
  imports Complex_Main "HOL-Library.Log_Nat"
begin

section \<open>Python values used by the two modules\<close>

text \<open>
  Strings are lists of characters, one \<^typ>\<open>char\<close> per Python character, so that
  \<open>len\<close> is \<^const>\<open>length\<close>. Python integers are \<^typ>\<open>int\<close>. A Python float
  (the delay, the progress value) is a double, written as the rational number it
  denotes; a product of floats is the exact product rounded to the nearest double
  (\<open>round_double\<close> below). Infinities, NaN and overflow are outside the model.
\<close>

abbreviation CR :: char where "CR \<equiv> CHR 0x0D"
abbreviation NL :: char where "NL \<equiv> CHR 0x0A"
abbreviation ESC :: char where "ESC \<equiv> CHR 0x1B"
abbreviation BACKSLASH :: char where "BACKSLASH \<equiv> CHR 0x5C"

text \<open>\<open>s * n\<close> on a string: \<open>n\<close> copies of \<open>s\<close>, the empty string when \<open>n \<le> 0\<close>.\<close>

definition py_repeat :: "string \<Rightarrow> int \<Rightarrow> string" where
  "py_repeat s n = concat (replicate (nat n) s)"

text \<open>\<open>int(x)\<close> on a number: truncation towards zero.\<close>

definition py_int :: "rat \<Rightarrow> int" where
  "py_int x = (if 0 \<le> x then \<lfloor>x\<rfloor> else \<lceil>x\<rceil>)"

text \<open>\<open>s.endswith(suffix)\<close> and \<open>sub in s\<close>.\<close>

definition endswith :: "string \<Rightarrow> string \<Rightarrow> bool" where
  "endswith s suffix =
     (length suffix \<le> length s \<and> drop (length s - length suffix) s = suffix)"

fun contains :: "string \<Rightarrow> string \<Rightarrow> bool" where
  "contains sub [] = (sub = [])"
| "contains sub (c # cs) = (take (length sub) (c # cs) = sub \<or> contains sub cs)"

text \<open>
  The format specification \<open>{:6.2f}\<close>: two digits after the point, rounded half to
  even on the exact value, a minus sign for a negative number, padded with spaces on the
  left to six characters.
\<close>

definition digit_char :: "nat \<Rightarrow> char" where
  "digit_char d = ''0123456789'' ! d"

fun digits :: "nat \<Rightarrow> string" where
  "digits n = (if n < 10 then [digit_char n] else digits (n div 10) @ [digit_char (n mod 10)])"

declare digits.simps [simp del]

definition round_half_even :: "rat \<Rightarrow> int" where
  "round_half_even x =
     (let f = \<lfloor>x\<rfloor>; d = x - of_int f
      in if d < 1 / 2 then f else if 1 / 2 < d then f + 1 else if even f then f else f + 1)"

text \<open>
  Rounding to the nearest double, ties to even. A double is \<open>m * 2 ^ e\<close> with an
  integer \<open>m\<close> of at most 53 bits and \<open>e \<ge> -1074\<close>. For \<open>x \<noteq> 0\<close> the exponent is chosen
  so that \<open>x / 2 ^ e\<close> lies between \<open>2 ^ 52\<close> and \<open>2 ^ 53\<close> in absolute value, or is
  \<open>-1074\<close> when \<open>x\<close> is smaller than that allows (the subnormal range); then \<open>x / 2 ^ e\<close>
  is rounded to an integer. \<open>ilog2 q\<close> is the integer part of the binary logarithm of
  \<open>q > 0\<close>.
\<close>

definition pow2 :: "int \<Rightarrow> rat" where
  "pow2 e = (if 0 \<le> e then 2 ^ nat e else 1 / 2 ^ nat (- e))"

definition ilog2 :: "rat \<Rightarrow> int" where
  "ilog2 q = (if 1 \<le> q then bitlen \<lfloor>q\<rfloor> - 1 else - bitlen (\<lceil>1 / q\<rceil> - 1))"

definition double_exponent :: "rat \<Rightarrow> int" where
  "double_exponent x = max (- 1074) (ilog2 \<bar>x\<bar> - 52)"

definition round_double :: "rat \<Rightarrow> rat" where
  "round_double x =
     (if x = 0 then 0
      else of_int (round_half_even (x / pow2 (double_exponent x))) * pow2 (double_exponent x))"

text \<open>
  \<open>x * y\<close> on two floats, and the conversion of an integer operand to a float that
  precedes it in \<open>n * y\<close>.
\<close>

definition float_mul :: "rat \<Rightarrow> rat \<Rightarrow> rat" where
  "float_mul x y = round_double (x * y)"

definition float_of_int :: "int \<Rightarrow> rat" where
  "float_of_int n = round_double (of_int n)"

definition format_6_2f :: "rat \<Rightarrow> string" where
  "format_6_2f x =
     (let r = nat (round_half_even (\<bar>x\<bar> * 100));
          body = (if x < 0 then ''-'' else []) @ digits (r div 100) @ ''.'' @
                 [digit_char (r mod 100 div 10), digit_char (r mod 10)]
      in replicate (6 - length body) CHR '' '' @ body)"

section \<open>ProgressIndicator.py\<close>

subsection \<open>The world an indicator acts on\<close>

text \<open>
  The effects of the module, in program order: writes to and flushes of \<open>sys.stdout\<close>,
  and the start and the join of a background thread. \<open>terminal\<close> is what
  \<open>os.get_terminal_size()\<close> finds: the number of columns, or nothing when no terminal is
  attached (the call then raises \<open>OSError\<close>). \<open>cells\<close> is the store of the one-element
  lists that \<open>Percentage\<close> uses to share the progress value by reference, \<open>ncells\<close> the
  next free address. \<open>alive\<close> lists the background threads that have been started and
  have not ended, \<open>spawned\<close> counts the threads created so far.
\<close>

datatype event = Write string | Flush | ThreadStart nat | ThreadJoin nat

datatype error = AssertionError | OSError

record world =
  trace :: "event list"
  terminal :: "nat option"
  cells :: "nat \<Rightarrow> rat"
  ncells :: nat
  alive :: "nat list"
  spawned :: nat

definition stdout_write :: "string \<Rightarrow> world \<Rightarrow> world" where
  "stdout_write s \<sigma> = \<sigma>\<lparr>trace := trace \<sigma> @ [Write s]\<rparr>"

definition stdout_flush :: "world \<Rightarrow> world" where
  "stdout_flush \<sigma> = \<sigma>\<lparr>trace := trace \<sigma> @ [Flush]\<rparr>"

text \<open>\<open>print(message)\<close> writes the message and then the line end.\<close>

definition py_print :: "string \<Rightarrow> world \<Rightarrow> world" where
  "py_print s \<sigma> = stdout_write [NL] (stdout_write s \<sigma>)"

definition get_terminal_size :: "world \<Rightarrow> error + nat" where
  "get_terminal_size \<sigma> = (case terminal \<sigma> of None \<Rightarrow> Inl OSError | Some c \<Rightarrow> Inr c)"

subsection \<open>Frame sequences\<close>

text \<open>
  A generator is its state between two \<open>next\<close> calls. \<open>Spin message i\<close> is \<open>spin()\<close>
  about to yield symbol \<open>i\<close> of \<open>"|/-\\"\<close>; \<open>DotsGen message num_dots dot blank n\<close> is
  \<open>dots()\<close> about to yield the frame of loop value \<open>n\<close>; \<open>Perc p message\<close> is
  \<open>_perc(p, message)\<close>, holding the address of the progress list and the message object;
  \<open>Custom f k\<close> is any other infinite frame sequence \<open>f\<close> at position \<open>k\<close>
  (\<open>next(animator)\<close> must be a string).
\<close>

datatype bar = Bar (bar_p: nat) (bar_m: string) (bar_w: int)

datatype msg_src = MsgList string | MsgBar bar

datatype animator =
    Spin string nat
  | DotsGen string int string string int
  | Perc nat msg_src
  | Custom "nat \<Rightarrow> string" nat

definition spin_symbols :: string where
  "spin_symbols = [CHR ''|'', CHR ''/'', CHR ''-'', BACKSLASH]"

text \<open>
  \<open>_bar.__init__\<close> and \<open>_bar.__getitem__\<close> (the key is ignored). In
  \<open>self.w * self.p[0]\<close> the integer width becomes a float and the product is a product
  of floats; so it is in \<open>100*p[0]\<close> of \<open>_perc\<close>. (The integers 0 and 1 as progress
  values give the same results as the floats 0.0 and 1.0.)
\<close>

definition bar_init :: "nat \<Rightarrow> string \<Rightarrow> nat \<Rightarrow> bar" where
  "bar_init percentage message width =
     Bar percentage message (int width - int (length message) - 11)"

definition bar_getitem :: "(nat \<Rightarrow> rat) \<Rightarrow> bar \<Rightarrow> string" where
  "bar_getitem cs self =
     (let n = py_int (float_mul (float_of_int (bar_w self)) (cs (bar_p self)))
      in bar_m self @ ''['' @ py_repeat ''#'' n @ py_repeat '' '' (bar_w self - n) @ ''] '')"

text \<open>\<open>message[0]\<close>: the element of the list \<open>[message]\<close>, or the bar string.\<close>

fun getitem0 :: "(nat \<Rightarrow> rat) \<Rightarrow> msg_src \<Rightarrow> string" where
  "getitem0 cs (MsgList s) = s"
| "getitem0 cs (MsgBar b) = bar_getitem cs b"

definition perc :: "(nat \<Rightarrow> rat) \<Rightarrow> nat \<Rightarrow> msg_src \<Rightarrow> string" where
  "perc cs p message =
     getitem0 cs message @ format_6_2f (float_mul (float_of_int 100) (cs p)) @ ''%''"

definition dots_frame :: "string \<Rightarrow> int \<Rightarrow> string \<Rightarrow> string \<Rightarrow> int \<Rightarrow> string" where
  "dots_frame message num_dots dot blank n =
     message @ py_repeat dot n @ py_repeat blank (num_dots - n)"

text \<open>
  \<open>next(animator)\<close>: the frame yielded and the generator afterwards. The \<open>for\<close> loops of
  \<open>spin\<close> and \<open>dots\<close> start again when they run out (\<open>while True\<close>). \<open>Dots\<close> asserts
  \<open>num_dots > 0\<close> before it creates \<open>dots()\<close>, so a \<open>DotsGen\<close> state with \<open>num_dots \<le> 0\<close>
  (where Python would loop without yielding) does not arise.
\<close>

fun next_frame :: "(nat \<Rightarrow> rat) \<Rightarrow> animator \<Rightarrow> string \<times> animator" where
  "next_frame cs (Spin message i) =
     (message @ [spin_symbols ! (i mod 4)], Spin message (Suc i mod 4))"
| "next_frame cs (DotsGen message num_dots dot blank n) =
     (dots_frame message num_dots dot blank n,
      DotsGen message num_dots dot blank (if n < num_dots then n + 1 else 1))"
| "next_frame cs (Perc p message) = (perc cs p message, Perc p message)"
| "next_frame cs (Custom f k) = (f k, Custom f (Suc k))"

subsection \<open>class ProgressIndicator\<close>

record indicator =
  animator :: animator
  sleep_delay :: rat
  thread :: "nat option"
  enabled :: bool

definition ProgressIndicator_init :: "animator \<Rightarrow> rat \<Rightarrow> error + indicator" where
  "ProgressIndicator_init a delay =
     (if 0 < delay
      then Inr \<lparr>animator = a, sleep_delay = delay, thread = None, enabled = False\<rparr>
      else Inl AssertionError)"

definition ProgressIndicator_show :: "indicator \<Rightarrow> world \<Rightarrow> indicator \<times> world" where
  "ProgressIndicator_show self \<sigma> =
     (let (frame, a) = next_frame (cells \<sigma>) (animator self)
      in (self\<lparr>animator := a\<rparr>, stdout_flush (stdout_write ('' '' @ frame @ [CR]) \<sigma>)))"

definition ProgressIndicator_start :: "indicator \<Rightarrow> world \<Rightarrow> indicator \<times> world" where
  "ProgressIndicator_start self \<sigma> =
     (if \<not> enabled self then
        let t = spawned \<sigma>
        in (self\<lparr>enabled := True, thread := Some t\<rparr>,
            \<sigma>\<lparr>alive := alive \<sigma> @ [t], spawned := Suc t, trace := trace \<sigma> @ [ThreadStart t]\<rparr>)
      else (self, \<sigma>))"

text \<open>
  \<open>join\<close>: the caller waits until the thread has seen the cleared flag and left its loop.
\<close>

definition join :: "nat \<Rightarrow> world \<Rightarrow> world" where
  "join t \<sigma> = \<sigma>\<lparr>alive := removeAll t (alive \<sigma>), trace := trace \<sigma> @ [ThreadJoin t]\<rparr>"

definition ProgressIndicator_stop :: "indicator \<Rightarrow> world \<Rightarrow> indicator \<times> world" where
  "ProgressIndicator_stop self \<sigma> =
     (if enabled self then
        let self' = self\<lparr>enabled := False\<rparr>;
            \<sigma>' = (case thread self' of
                    Some t \<Rightarrow> if t \<in> set (alive \<sigma>) then join t \<sigma> else \<sigma>
                  | None \<Rightarrow> \<sigma>)
        in (self', stdout_write [ESC, CHR ''['', CHR ''K''] \<sigma>')
      else (self, \<sigma>))"

text \<open>
  One turn of the loop of \<open>_render\<close>, run by background thread \<open>t\<close>: while the flag is
  set it shows a frame (and sleeps), otherwise the thread ends. A call of the caller and
  a turn of the loop are steps taken one after the other; what two threads do inside the
  same call of \<open>show\<close> is outside the model, and so is the time that \<open>sleep\<close> takes.
\<close>

definition render :: "nat \<Rightarrow> indicator \<Rightarrow> world \<Rightarrow> indicator \<times> world" where
  "render t self \<sigma> =
     (if t \<in> set (alive \<sigma>) then
        if enabled self then ProgressIndicator_show self \<sigma>
        else (self, \<sigma>\<lparr>alive := removeAll t (alive \<sigma>)\<rparr>)
      else (self, \<sigma>))"

definition ProgressIndicator_enter :: "indicator \<Rightarrow> world \<Rightarrow> indicator \<times> world" where
  "ProgressIndicator_enter self \<sigma> = ProgressIndicator_start self \<sigma>"

definition ProgressIndicator_exit :: "indicator \<Rightarrow> world \<Rightarrow> indicator \<times> world" where
  "ProgressIndicator_exit self \<sigma> = ProgressIndicator_stop self \<sigma>"

subsection \<open>The presets Spinner and Dots\<close>

text \<open>
  A constructor returns the new object or the exception raised, and the world as it has
  become by then: the width guard prints before \<open>__init__\<close> checks the delay.
\<close>

definition Spinner :: "rat \<Rightarrow> string \<Rightarrow> world \<Rightarrow> (error + indicator) \<times> world" where
  "Spinner delay message \<sigma> =
     (case get_terminal_size \<sigma> of
        Inl e \<Rightarrow> (Inl e, \<sigma>)
      | Inr columns \<Rightarrow>
          let (message', \<sigma>') =
                (if columns < length message + 2 then ([], py_print message \<sigma>)
                 else (message, \<sigma>))
          in (ProgressIndicator_init (Spin message' 0) delay, \<sigma>'))"

definition Dots ::
  "rat \<Rightarrow> string \<Rightarrow> int \<Rightarrow> string \<Rightarrow> string \<Rightarrow> world \<Rightarrow> (error + indicator) \<times> world" where
  "Dots delay message num_dots dot blank \<sigma> =
     (if length dot \<noteq> length blank then (Inl AssertionError, \<sigma>)
      else if \<not> 0 < num_dots then (Inl AssertionError, \<sigma>)
      else
        case get_terminal_size \<sigma> of
          Inl e \<Rightarrow> (Inl e, \<sigma>)
        | Inr columns \<Rightarrow>
            let (message', \<sigma>') =
                  (if int columns < num_dots + int (length message) + 1
                   then ([], py_print message \<sigma>)
                   else (message, \<sigma>))
            in (ProgressIndicator_init (DotsGen message' num_dots dot blank 1) delay, \<sigma>'))"

subsection \<open>class Percentage\<close>

text \<open>
  \<open>progress\<close> is the address of the list \<open>[percentage]\<close>; the same address is held by
  the \<open>_perc\<close> generator and by the \<open>_bar\<close> object.
\<close>

record percentage =
  use_thread :: bool
  keep_output :: bool
  progress :: nat
  message_obj :: msg_src
  indicator :: indicator

definition Percentage_init ::
  "rat \<Rightarrow> string \<Rightarrow> rat \<Rightarrow> bool \<Rightarrow> bool \<Rightarrow> bool \<Rightarrow> world \<Rightarrow> (error + percentage) \<times> world" where
  "Percentage_init delay message percentage use_bar use_delayed_output keep \<sigma> =
     (let p = ncells \<sigma>;
          \<sigma>1 = \<sigma>\<lparr>cells := (cells \<sigma>)(p := percentage), ncells := Suc p\<rparr>
      in case get_terminal_size \<sigma>1 of
           Inl e \<Rightarrow> (Inl e, \<sigma>1)
         | Inr width \<Rightarrow>
             let (m, \<sigma>2) =
                   (if use_bar then
                      let (message', \<sigma>') =
                            (if width < length message + 12 then ([], py_print message \<sigma>1)
                             else (message, \<sigma>1))
                      in (MsgBar (bar_init p message' width), \<sigma>')
                    else
                      let (message', \<sigma>') =
                            (if width < length message + 8 then ([], py_print message \<sigma>1)
                             else (message, \<sigma>1))
                      in (MsgList message', \<sigma>'))
             in (case ProgressIndicator_init (Perc p m) delay of
                   Inl e \<Rightarrow> (Inl e, \<sigma>2)
                 | Inr ind \<Rightarrow>
                     (Inr \<lparr>use_thread = use_delayed_output, keep_output = keep, progress = p,
                           message_obj = m, indicator = ind\<rparr>, \<sigma>2)))"

definition Percentage_start :: "percentage \<Rightarrow> world \<Rightarrow> percentage \<times> world" where
  "Percentage_start self \<sigma> =
     (if use_thread self then
        let (i, \<sigma>') = ProgressIndicator_start (indicator self) \<sigma>
        in (self\<lparr>indicator := i\<rparr>, \<sigma>')
      else (self, \<sigma>))"

definition Percentage_stop :: "percentage \<Rightarrow> world \<Rightarrow> percentage \<times> world" where
  "Percentage_stop self \<sigma> =
     (let (i1, \<sigma>1) = (if use_thread self then ProgressIndicator_show (indicator self) \<sigma>
                      else (indicator self, \<sigma>));
          \<sigma>2 = (if keep_output self then stdout_write [NL] \<sigma>1 else \<sigma>1);
          (i3, \<sigma>3) = (if use_thread self then ProgressIndicator_stop i1 \<sigma>2
                      else (i1, stdout_write [ESC, CHR ''['', CHR ''K''] \<sigma>2))
      in (self\<lparr>indicator := i3\<rparr>, \<sigma>3))"

definition Percentage_set_progress :: "percentage \<Rightarrow> rat \<Rightarrow> world \<Rightarrow> percentage \<times> world" where
  "Percentage_set_progress self v \<sigma> =
     (let \<sigma>1 = \<sigma>\<lparr>cells := (cells \<sigma>)(progress self := v)\<rparr>
      in if \<not> enabled (indicator self) then
           let (i, \<sigma>2) = ProgressIndicator_show (indicator self) \<sigma>1
           in (self\<lparr>indicator := i\<rparr>, \<sigma>2)
         else (self, \<sigma>1))"

definition Percentage_enter :: "percentage \<Rightarrow> world \<Rightarrow> percentage \<times> world" where
  "Percentage_enter self \<sigma> = Percentage_start self \<sigma>"

definition Percentage_exit :: "percentage \<Rightarrow> world \<Rightarrow> percentage \<times> world" where
  "Percentage_exit self \<sigma> = Percentage_stop self \<sigma>"

section \<open>cleanData.py\<close>

subsection \<open>The files under the output folder\<close>

text \<open>
  \<open>tree\<close> is what \<open>out_path\<close> names: nothing, or a directory with its entries in the
  order \<open>os.listdir\<close> gives them. An entry of \<open>out_path\<close> is a regular file or a
  directory; an entry of such a directory is a name with a flag telling whether it is
  itself a directory (the code never looks inside one). The process may read and change
  every entry: permission errors are outside the model. \<open>effects\<close> records, in order,
  the lines printed, the files removed by \<open>os.remove\<close> and the directories removed by
  \<open>os.rmdir\<close>, each with the path the code passed.
\<close>

datatype oserror = FileNotFoundError | NotADirectoryError | IsADirectoryError | DirectoryNotEmpty

datatype entry = File | Dir "(string \<times> bool) list"

datatype effect = Print string | Removed string | RemovedDir string

record disk =
  tree :: "(string \<times> entry) list option"
  effects :: "effect list"

text \<open>\<open>os.path.join\<close> of two parts.\<close>

definition py_join :: "string \<Rightarrow> string \<Rightarrow> string" where
  "py_join a b =
     (if take 1 b = ''/'' then b
      else if a = [] \<or> last a = CHR ''/'' then a @ b
      else a @ ''/'' @ b)"

text \<open>The entry of \<open>out_path\<close> that a name such as \<open>Germany/\<close> refers to.\<close>

definition dir_name :: "string \<Rightarrow> string" where
  "dir_name cdir = takeWhile (\<lambda>c. c \<noteq> CHR ''/'') cdir"

text \<open>
  A place is \<open>out_path\<close> itself (\<open>None\<close>) or the directory \<open>out_path/cdir\<close>
  (\<open>Some cdir\<close>).
\<close>

definition os_listdir :: "string option \<Rightarrow> disk \<Rightarrow> oserror + string list" where
  "os_listdir place s =
     (case tree s of
        None \<Rightarrow> Inl FileNotFoundError
      | Some es \<Rightarrow>
          (case place of
             None \<Rightarrow> Inr (map fst es)
           | Some cdir \<Rightarrow>
               (case map_of es (dir_name cdir) of
                  None \<Rightarrow> Inl FileNotFoundError
                | Some File \<Rightarrow> Inl NotADirectoryError
                | Some (Dir xs) \<Rightarrow> Inr (map fst xs))))"

definition os_remove :: "string option \<Rightarrow> string \<Rightarrow> string \<Rightarrow> disk \<Rightarrow> oserror option \<times> disk" where
  "os_remove place item path s =
     (case tree s of
        None \<Rightarrow> (Some FileNotFoundError, s)
      | Some es \<Rightarrow>
          (case place of
             None \<Rightarrow>
               (case map_of es item of
                  None \<Rightarrow> (Some FileNotFoundError, s)
                | Some (Dir xs) \<Rightarrow> (Some IsADirectoryError, s)
                | Some File \<Rightarrow>
                    (None, s\<lparr>tree := Some (filter (\<lambda>e. fst e \<noteq> item) es),
                             effects := effects s @ [Removed path]\<rparr>))
           | Some cdir \<Rightarrow>
               (case map_of es (dir_name cdir) of
                  None \<Rightarrow> (Some FileNotFoundError, s)
                | Some File \<Rightarrow> (Some NotADirectoryError, s)
                | Some (Dir xs) \<Rightarrow>
                    (case map_of xs item of
                       None \<Rightarrow> (Some FileNotFoundError, s)
                     | Some True \<Rightarrow> (Some IsADirectoryError, s)
                     | Some False \<Rightarrow>
                         (None,
                          s\<lparr>tree := Some (map (\<lambda>e. if fst e = dir_name cdir
                                                  then (fst e, Dir (filter (\<lambda>x. fst x \<noteq> item) xs))
                                                  else e) es),
                            effects := effects s @ [Removed path]\<rparr>)))))"

definition os_rmdir :: "string \<Rightarrow> string \<Rightarrow> disk \<Rightarrow> oserror option \<times> disk" where
  "os_rmdir cdir path s =
     (case tree s of
        None \<Rightarrow> (Some FileNotFoundError, s)
      | Some es \<Rightarrow>
          (case map_of es (dir_name cdir) of
             None \<Rightarrow> (Some FileNotFoundError, s)
           | Some File \<Rightarrow> (Some NotADirectoryError, s)
           | Some (Dir []) \<Rightarrow>
               (None, s\<lparr>tree := Some (filter (\<lambda>e. fst e \<noteq> dir_name cdir) es),
                        effects := effects s @ [RemovedDir path]\<rparr>)
           | Some (Dir (x # xs)) \<Rightarrow> (Some DirectoryNotEmpty, s)))"

text \<open>\<open>print(a, b)\<close>: the two strings separated by a space.\<close>

definition print2 :: "string \<Rightarrow> string \<Rightarrow> disk \<Rightarrow> disk" where
  "print2 a b s = s\<lparr>effects := effects s @ [Print (a @ '' '' @ b)]\<rparr>"

subsection \<open>clean_data\<close>

text \<open>
  A statement returns the exception that leaves it, if any, and the disk as it is then.
  \<open>then_do\<close> runs the next statement unless an exception is on its way.
\<close>

definition then_do ::
  "oserror option \<times> disk \<Rightarrow> (disk \<Rightarrow> oserror option \<times> disk) \<Rightarrow> oserror option \<times> disk" where
  "then_do r f = (case r of (Some e, s) \<Rightarrow> (Some e, s) | (None, s) \<Rightarrow> f s)"

text \<open>
  The loop \<open>for item in files: if sel(item): print(...); os.remove(...)\<close> over the
  entries of \<open>directory\<close>.
\<close>

fun remove_items ::
  "(string \<Rightarrow> bool) \<Rightarrow> string option \<Rightarrow> string \<Rightarrow> string list \<Rightarrow> disk \<Rightarrow> oserror option \<times> disk" where
  "remove_items sel place directory [] s = (None, s)"
| "remove_items sel place directory (item # files) s =
     (if sel item then
        then_do
          (os_remove place item (py_join directory item)
             (print2 ''Deleting file '' (py_join directory item) s))
          (remove_items sel place directory files)
      else remove_items sel place directory files s)"

text \<open>
  \<open>os.rmdir(directory)\<close> with every \<open>OSError\<close> caught; the directory is reported when
  it was removed.
\<close>

definition rmdir_if_empty :: "string \<Rightarrow> string \<Rightarrow> disk \<Rightarrow> disk" where
  "rmdir_if_empty cdir directory s =
     (case os_rmdir cdir directory s of
        (Some e, s') \<Rightarrow> s'
      | (None, s') \<Rightarrow> print2 ''Deleting directory '' directory s')"

definition directories :: "string list" where
  "directories =
     [''Germany/'', ''Spain/'', ''France/'', ''Italy/'', ''US/'', ''SouthKorea/'', ''China/'']"

text \<open>
  The loop over \<open>directories\<close> (in the branches \<open>all_data\<close> and \<open>john_hopkins\<close>): a
  missing directory is skipped, any other error of \<open>os.listdir\<close> leaves the function.
\<close>

fun clean_directories ::
  "(string \<Rightarrow> bool) \<Rightarrow> string \<Rightarrow> string list \<Rightarrow> disk \<Rightarrow> oserror option \<times> disk" where
  "clean_directories sel out_path [] s = (None, s)"
| "clean_directories sel out_path (cdir # cdirs) s =
     (let directory = py_join out_path cdir
      in case os_listdir (Some cdir) s of
           Inl FileNotFoundError \<Rightarrow> clean_directories sel out_path cdirs s
         | Inl e \<Rightarrow> (Some e, s)
         | Inr files \<Rightarrow>
             then_do (remove_items sel (Some cdir) directory files s)
               (\<lambda>s'. clean_directories sel out_path cdirs (rmdir_if_empty cdir directory s')))"

text \<open>
  The block for \<open>Germany/\<close> (in the branches \<open>rki\<close> and \<open>population\<close>): a missing
  directory counts as empty.
\<close>

definition clean_germany :: "(string \<Rightarrow> bool) \<Rightarrow> string \<Rightarrow> disk \<Rightarrow> oserror option \<times> disk" where
  "clean_germany sel out_path s =
     (let directory = py_join out_path ''Germany/''
      in case os_listdir (Some ''Germany/'') s of
           Inl FileNotFoundError \<Rightarrow> (None, rmdir_if_empty ''Germany/'' directory s)
         | Inl e \<Rightarrow> (Some e, s)
         | Inr files \<Rightarrow>
             then_do (remove_items sel (Some ''Germany/'') directory files s)
               (\<lambda>s'. (None, rmdir_if_empty ''Germany/'' directory s')))"

text \<open>
  The block for the files of \<open>out_path\<close> itself ("further jh files"). For the empty
  path \<open>os.listdir\<close> raises \<open>FileNotFoundError\<close>, although the directories joined to it
  are found from the current directory, which \<open>tree\<close> then stands for.
\<close>

definition clean_out_path :: "(string \<Rightarrow> bool) \<Rightarrow> string \<Rightarrow> disk \<Rightarrow> oserror option \<times> disk" where
  "clean_out_path sel out_path s =
     (case (if out_path = [] then Inl FileNotFoundError else os_listdir None s) of
        Inl FileNotFoundError \<Rightarrow> (None, s)
      | Inl e \<Rightarrow> (Some e, s)
      | Inr files \<Rightarrow> remove_items sel None out_path files s)"

definition clean_data ::
  "bool \<Rightarrow> bool \<Rightarrow> bool \<Rightarrow> bool \<Rightarrow> bool \<Rightarrow> string \<Rightarrow> disk \<Rightarrow> oserror option \<times> disk" where
  "clean_data all_data rki john_hopkins population hdf5 out_path s =
     (let ending = (if hdf5 then ''h5'' else ''json'')
      in if all_data then
           then_do
             (clean_directories (\<lambda>item. endswith item ''.json'' \<or> endswith item ''.h5'')
                out_path directories s)
             (clean_out_path (\<lambda>item. endswith item ''.json'' \<or> endswith item ''.h5'') out_path)
         else if rki \<or> john_hopkins \<or> population then
           then_do
             (then_do
                (if rki then
                   clean_germany
                     (\<lambda>item. endswith item ending \<and>
                        (contains ''_rki'' item \<or> contains ''RKI'' item)) out_path s
                 else (None, s))
                (\<lambda>s1. if population then
                        clean_germany
                          (\<lambda>item. endswith item ending \<and>
                             (contains ''Popul'' item \<or> contains ''FullDataB'' item \<or>
                              contains ''FullDataL'' item)) out_path s1
                      else (None, s1)))
             (\<lambda>s2. if john_hopkins then
                     then_do
                       (clean_directories (\<lambda>item. endswith item ending \<and> contains ''_jh'' item)
                          out_path directories s2)
                       (clean_out_path
                          (\<lambda>item. endswith item ending \<and>
                             (contains ''_jh'' item \<or> contains ''JohnHopkins'' item)) out_path)
                   else (None, s2))
         else
           (None,
            s\<lparr>effects := effects s @
               [Print ''Please specify what should be deleted. See --help for details.'']\<rparr>))"

section \<open>Vocabulary of the properties\<close>

text \<open>
  A fresh world with the given terminal, and the object a successful constructor call
  has made.
\<close>

definition world0 :: "nat option \<Rightarrow> world" where
  "world0 t = \<lparr>trace = [], terminal = t, cells = (\<lambda>a. 0), ncells = 0, alive = [], spawned = 0\<rparr>"

definition made :: "(error + 'a) \<times> world \<Rightarrow> 'a" where
  "made r = projr (fst r)"

text \<open>The frame that the \<open>k\<close>-th next call of \<open>next\<close> yields, counting from 0.\<close>

fun nth_frame :: "(nat \<Rightarrow> rat) \<Rightarrow> animator \<Rightarrow> nat \<Rightarrow> string" where
  "nth_frame cs a 0 = fst (next_frame cs a)"
| "nth_frame cs a (Suc k) = nth_frame cs (snd (next_frame cs a)) k"

text \<open>
  What can happen to an indicator, one step at a time: the caller calls \<open>start\<close>, \<open>stop\<close>
  or \<open>show\<close>, or background thread \<open>t\<close> takes one turn of its loop.
\<close>

datatype action = Start | Stop | Show | Render nat

fun act :: "action \<Rightarrow> indicator \<times> world \<Rightarrow> indicator \<times> world" where
  "act Start (self, \<sigma>) = ProgressIndicator_start self \<sigma>"
| "act Stop (self, \<sigma>) = ProgressIndicator_stop self \<sigma>"
| "act Show (self, \<sigma>) = ProgressIndicator_show self \<sigma>"
| "act (Render t) (self, \<sigma>) = render t self \<sigma>"

definition run :: "action list \<Rightarrow> indicator \<times> world \<Rightarrow> indicator \<times> world" where
  "run acts st = fold act acts st"

text \<open>
  The running flag and the background threads agree: a running indicator owns the one
  thread alive, an idle one has none.
\<close>

definition task_inv :: "indicator \<times> world \<Rightarrow> bool" where
  "task_inv st =
     (case st of (self, \<sigma>) \<Rightarrow>
        if enabled self then (case thread self of None \<Rightarrow> False | Some t \<Rightarrow> alive \<sigma> = [t])
        else alive \<sigma> = [])"

text \<open>
  The same for a \<open>Percentage\<close> object, whose generator reads the object's own progress
  list and message.
\<close>

definition percentage_ok :: "percentage \<Rightarrow> bool" where
  "percentage_ok self = (animator (indicator self) = Perc (progress self) (message_obj self))"

datatype paction = PStart | PStop | PSetProgress rat | PRender nat

fun pact :: "paction \<Rightarrow> percentage \<times> world \<Rightarrow> percentage \<times> world" where
  "pact PStart (self, \<sigma>) = Percentage_start self \<sigma>"
| "pact PStop (self, \<sigma>) = Percentage_stop self \<sigma>"
| "pact (PSetProgress v) (self, \<sigma>) = Percentage_set_progress self v \<sigma>"
| "pact (PRender t) (self, \<sigma>) =
     (let (i, \<sigma>') = render t (indicator self) \<sigma> in (self\<lparr>indicator := i\<rparr>, \<sigma>'))"

definition prun :: "paction list \<Rightarrow> percentage \<times> world \<Rightarrow> percentage \<times> world" where
  "prun acts st = fold pact acts st"

definition percentage_inv :: "percentage \<times> world \<Rightarrow> bool" where
  "percentage_inv st =
     (case st of (self, \<sigma>) \<Rightarrow>
        percentage_ok self \<and> task_inv (indicator self, \<sigma>) \<and>
        (enabled (indicator self) \<longrightarrow> use_thread self))"

text \<open>The paths of the files that \<open>os.remove\<close> has removed.\<close>

fun removed_files :: "effect list \<Rightarrow> string list" where
  "removed_files [] = []"
| "removed_files (Removed path # es) = path # removed_files es"
| "removed_files (e # es) = removed_files es"

text \<open>
  Between two disks, every file removed since the first has a path with property \<open>P\<close>.
\<close>

definition removes_only :: "(string \<Rightarrow> bool) \<Rightarrow> disk \<Rightarrow> disk \<Rightarrow> bool" where
  "removes_only P s s' =
     (\<forall>path \<in> set (removed_files (effects s')).
        path \<in> set (removed_files (effects s)) \<or> P path)"

section \<open>Properties of ProgressIndicator.py\<close>

subsection \<open>Rounding to a double\<close>

lemma round_half_even_of_int: "round_half_even (of_int n) = n"
  by (simp add: round_half_even_def Let_def)

lemma round_half_even_ge: "of_int n \<le> x \<Longrightarrow> n \<le> round_half_even x"
proof -
  assume "of_int n \<le> x"
  then have "n \<le> \<lfloor>x\<rfloor>" by (simp add: le_floor_iff)
  moreover have "\<lfloor>x\<rfloor> \<le> round_half_even x"
    by (simp add: round_half_even_def Let_def)
  ultimately show ?thesis by simp
qed

lemma round_half_even_le: "x \<le> of_int n \<Longrightarrow> round_half_even x \<le> n"
proof (cases "x = of_int n")
  case True
  then show ?thesis by (simp add: round_half_even_of_int)
next
  case False
  assume "x \<le> of_int n"
  with False have "x < of_int n" by simp
  then have "\<lfloor>x\<rfloor> < n" by (simp add: floor_less_iff)
  moreover have "round_half_even x \<le> \<lfloor>x\<rfloor> + 1"
    by (simp add: round_half_even_def Let_def)
  ultimately show ?thesis by simp
qed

lemma pow2_pos: "0 < pow2 e"
  by (simp add: pow2_def)

lemma double_exponent_lower:
  assumes "0 < double_exponent x"
  shows "2 ^ nat (double_exponent x + 52) \<le> \<bar>x\<bar>"
proof -
  from assms have lg: "double_exponent x = ilog2 \<bar>x\<bar> - 52"
    by (simp add: double_exponent_def max_def split: if_splits)
  with assms have big: "52 < ilog2 \<bar>x\<bar>" by simp
  have one: "1 \<le> \<bar>x\<bar>"
  proof (rule ccontr)
    assume "\<not> 1 \<le> \<bar>x\<bar>"
    then have "ilog2 \<bar>x\<bar> = - bitlen (\<lceil>1 / \<bar>x\<bar>\<rceil> - 1)" by (simp add: ilog2_def)
    with bitlen_nonneg [of "\<lceil>1 / \<bar>x\<bar>\<rceil> - 1"] big show False by simp
  qed
  then have il: "ilog2 \<bar>x\<bar> = bitlen \<lfloor>\<bar>x\<bar>\<rfloor> - 1" by (simp add: ilog2_def)
  from one have "0 < \<lfloor>\<bar>x\<bar>\<rfloor>" by (simp add: floor_less_iff less_floor_iff)
  from bitlen_bounds [OF this] have "2 ^ nat (bitlen \<lfloor>\<bar>x\<bar>\<rfloor> - 1) \<le> \<lfloor>\<bar>x\<bar>\<rfloor>" by simp
  then have "(of_int (2 ^ nat (bitlen \<lfloor>\<bar>x\<bar>\<rfloor> - 1)) :: rat) \<le> of_int \<lfloor>\<bar>x\<bar>\<rfloor>"
    by (simp only: of_int_le_iff)
  also have "\<dots> \<le> \<bar>x\<bar>" by simp
  finally show ?thesis by (simp add: lg il)
qed

lemma scaled_nonpos_exponent:
  assumes "e \<le> 0"
  shows "x / pow2 e = x * 2 ^ nat (- e)" and "y * pow2 e = y / 2 ^ nat (- e)"
  using assms by (auto simp: pow2_def)

lemma scaled_round_ge:
  "of_int m \<le> y \<Longrightarrow> of_int m * (2 :: rat) ^ n \<le> of_int (round_half_even y) * 2 ^ n"
  by (intro mult_right_mono) (simp_all add: round_half_even_ge)

lemma scaled_round_le:
  "y \<le> of_int m \<Longrightarrow> of_int (round_half_even y) * (2 :: rat) ^ n \<le> of_int m * 2 ^ n"
  by (intro mult_right_mono) (simp_all add: round_half_even_le)

lemma round_double_pos_exponent:
  "x \<noteq> 0 \<Longrightarrow> 0 < double_exponent x \<Longrightarrow>
   round_double x =
     of_int (round_half_even (x / 2 ^ nat (double_exponent x))) * 2 ^ nat (double_exponent x)"
  by (simp add: round_double_def pow2_def)

lemma two_53_le:
  assumes "0 < e"
  shows "(2 :: rat) ^ 53 \<le> of_int (2 ^ 52) * 2 ^ nat e"
proof -
  have "(2 :: rat) ^ 53 = 2 ^ 52 * 2 ^ 1" by simp
  also have "\<dots> \<le> 2 ^ 52 * 2 ^ nat e"
    using assms by (intro mult_left_mono power_increasing) auto
  finally show ?thesis by simp
qed

lemma round_double_ge_int:
  assumes "of_int k \<le> x" and "- (2 ^ 53) < k" and "k \<le> 2 ^ 53"
  shows "of_int k \<le> round_double x"
proof (cases "x = 0")
  case True
  with assms show ?thesis by (simp add: round_double_def)
next
  case False
  let ?e = "double_exponent x"
  show ?thesis
  proof (cases "?e \<le> 0")
    case True
    let ?s = "2 ^ nat (- ?e) :: int"
    have "of_int (k * ?s) \<le> x * 2 ^ nat (- ?e)"
      using assms(1) by (simp add: mult_right_mono)
    then have "k * ?s \<le> round_half_even (x * 2 ^ nat (- ?e))"
      by (rule round_half_even_ge)
    then have "(of_int (k * ?s) :: rat) \<le> of_int (round_half_even (x * 2 ^ nat (- ?e)))"
      by (simp only: of_int_le_iff)
    then have "(of_int k :: rat) \<le> of_int (round_half_even (x * 2 ^ nat (- ?e))) / 2 ^ nat (- ?e)"
      by (simp add: pos_le_divide_eq)
    then show ?thesis
      using False True by (simp add: round_double_def scaled_nonpos_exponent)
  next
    case pos: False
    then have e: "0 < ?e" by simp
    from double_exponent_lower [OF e] have big: "2 ^ nat (?e + 52) \<le> \<bar>x\<bar>" .
    have p53: "(2 :: rat) ^ 53 \<le> 2 ^ nat (?e + 52)"
      using e by (intro power_increasing) auto
    have xpos: "0 \<le> x"
    proof (rule ccontr)
      assume "\<not> 0 \<le> x"
      then have "x \<le> - (2 ^ 53)" using big p53 by simp
      with assms(1) have "(of_int k :: rat) \<le> - (2 ^ 53)" by simp
      then have "(of_int k :: rat) \<le> of_int (- (2 ^ 53))" by simp
      then have "k \<le> - (2 ^ 53)" by (simp only: of_int_le_iff)
      with assms(2) show False by simp
    qed
    have split: "(2 :: rat) ^ nat (?e + 52) = 2 ^ 52 * 2 ^ nat ?e"
      using e by (simp add: nat_add_distrib power_add)
    have "of_int (2 ^ 52) \<le> x / 2 ^ nat ?e"
      using big xpos by (simp add: pos_le_divide_eq split)
    from scaled_round_ge [OF this, of "nat ?e"] two_53_le [OF e]
    have "(2 :: rat) ^ 53 \<le> round_double x"
      unfolding round_double_pos_exponent [OF False e] by (rule order_trans [rotated])
    moreover have "(of_int k :: rat) \<le> 2 ^ 53"
    proof -
      have "(of_int k :: rat) \<le> of_int (2 ^ 53)" using assms(3) by (simp only: of_int_le_iff)
      then show ?thesis by simp
    qed
    ultimately show ?thesis by simp
  qed
qed

lemma round_double_le_int:
  assumes "x \<le> of_int k" and "k < 2 ^ 53" and "- (2 ^ 53) \<le> k"
  shows "round_double x \<le> of_int k"
proof (cases "x = 0")
  case True
  with assms show ?thesis by (simp add: round_double_def)
next
  case False
  let ?e = "double_exponent x"
  show ?thesis
  proof (cases "?e \<le> 0")
    case True
    let ?s = "2 ^ nat (- ?e) :: int"
    have "x * 2 ^ nat (- ?e) \<le> of_int (k * ?s)"
      using assms(1) by (simp add: mult_right_mono)
    then have "round_half_even (x * 2 ^ nat (- ?e)) \<le> k * ?s"
      by (rule round_half_even_le)
    then have "(of_int (round_half_even (x * 2 ^ nat (- ?e))) :: rat) \<le> of_int (k * ?s)"
      by (simp only: of_int_le_iff)
    then have "of_int (round_half_even (x * 2 ^ nat (- ?e))) / 2 ^ nat (- ?e) \<le> (of_int k :: rat)"
      by (simp add: pos_divide_le_eq)
    then show ?thesis
      using False True by (simp add: round_double_def scaled_nonpos_exponent)
  next
    case pos: False
    then have e: "0 < ?e" by simp
    from double_exponent_lower [OF e] have big: "2 ^ nat (?e + 52) \<le> \<bar>x\<bar>" .
    have p53: "(2 :: rat) ^ 53 \<le> 2 ^ nat (?e + 52)"
      using e by (intro power_increasing) auto
    have kr: "(of_int k :: rat) < 2 ^ 53"
    proof -
      have "(of_int k :: rat) < of_int (2 ^ 53)" using assms(2) by (simp only: of_int_less_iff)
      then show ?thesis by simp
    qed
    have xneg: "x < 0"
    proof (rule ccontr)
      assume "\<not> x < 0"
      then have "2 ^ 53 \<le> x" using big p53 by simp
      with assms(1) kr show False by simp
    qed
    have split: "(2 :: rat) ^ nat (?e + 52) = 2 ^ 52 * 2 ^ nat ?e"
      using e by (simp add: nat_add_distrib power_add)
    have "x \<le> - (2 ^ 52 * 2 ^ nat ?e)"
      using big xneg by (simp add: split)
    then have "x / 2 ^ nat ?e \<le> of_int (- (2 ^ 52))"
      by (simp add: pos_divide_le_eq)
    from scaled_round_le [OF this, of "nat ?e"] two_53_le [OF e]
    have "round_double x \<le> - (2 ^ 53)"
      unfolding round_double_pos_exponent [OF False e] by simp
    moreover have "- (2 ^ 53) \<le> (of_int k :: rat)"
    proof -
      have "(of_int (- (2 ^ 53)) :: rat) \<le> of_int k" using assms(3) by (simp only: of_int_le_iff)
      then show ?thesis by simp
    qed
    ultimately show ?thesis by simp
  qed
qed

lemma round_double_of_int:
  assumes "\<bar>k\<bar> < 2 ^ 53"
  shows "round_double (of_int k) = of_int k"
proof (rule antisym)
  show "round_double (of_int k) \<le> of_int k"
    using assms by (intro round_double_le_int) auto
  show "of_int k \<le> round_double (of_int k)"
    using assms by (intro round_double_ge_int) auto
qed

text \<open>
  Some known doubles and products: the doubles nearest to 0.1 and to 0.29, the tie at
  \<open>2 ^ 53 + 1\<close>, and \<open>100 * 0.29\<close>, which is \<open>28.999999999999996\<close>.
\<close>

lemma round_double_examples:
  "round_double (1 / 10) = 3602879701896397 / 36028797018963968"
  "round_double (29 / 100) = 5224175567749775 / 18014398509481984"
  "round_double (2 ^ 53 + 1) = 2 ^ 53"
  "float_mul (float_of_int 100) (5224175567749775 / 18014398509481984) =
     8162774324609023 / 281474976710656"
  by code_simp+

lemma third_is_double: "round_double (1 / 3) = 6004799503160661 / 18014398509481984"
  by code_simp

lemma product_rounds_up:
  "float_mul (float_of_int 69) (6004799503160661 / 18014398509481984) = 23"
  by code_simp

lemma exact_floor: "\<lfloor>(69 :: rat) * (6004799503160661 / 18014398509481984)\<rfloor> = 22"
  by code_simp

lemma half_product: "float_mul (float_of_int 69) (1 / 2) = 69 / 2"
  by code_simp

lemma float_of_int_exact: "\<bar>w\<bar> < 2 ^ 53 \<Longrightarrow> float_of_int w = of_int w"
  by (simp add: float_of_int_def round_double_of_int)

lemma float_product_bounds:
  assumes w: "\<bar>w\<bar> < 2 ^ 53" and x: "0 \<le> x" "x \<le> 1" and nonneg: "0 \<le> w"
  shows "\<lfloor>of_int w * x\<rfloor> \<le> \<lfloor>float_mul (float_of_int w) x\<rfloor>"
    and "\<lfloor>float_mul (float_of_int w) x\<rfloor> \<le> \<lfloor>of_int w * x\<rfloor> + 1"
    and "\<lfloor>float_mul (float_of_int w) x\<rfloor> \<le> w"
    and "0 \<le> float_mul (float_of_int w) x"
proof -
  let ?p = "of_int w * x :: rat"
  define f where "f = \<lfloor>?p\<rfloor>"
  have fm: "float_mul (float_of_int w) x = round_double ?p"
    by (simp add: float_mul_def float_of_int_exact [OF w])
  have p0: "0 \<le> ?p" using x nonneg by simp
  have pw: "?p \<le> of_int w" using x nonneg by (simp add: mult_left_le)
  have f0: "0 \<le> f" using p0 by (simp add: f_def)
  have fw: "f \<le> w" using pw by (simp add: f_def floor_le_iff)
  have fp: "of_int f \<le> ?p" "?p \<le> of_int (f + 1)"
    using floor_correct [of ?p] by (simp_all add: f_def order_less_imp_le)
  have "- (2 ^ 53) < f" using f0 by simp
  moreover have "f \<le> 2 ^ 53" using fw w by simp
  ultimately have "of_int f \<le> round_double ?p"
    using fp(1) by (intro round_double_ge_int)
  then show "\<lfloor>of_int w * x\<rfloor> \<le> \<lfloor>float_mul (float_of_int w) x\<rfloor>"
    by (simp add: fm le_floor_iff f_def [symmetric])
  have "w < 2 ^ 53" "- (2 ^ 53) \<le> w" using w nonneg by simp_all
  with pw have up: "round_double ?p \<le> of_int w"
    by (rule round_double_le_int)
  then have upf: "\<lfloor>round_double ?p\<rfloor> \<le> w"
    by (metis floor_mono floor_of_int)
  then show "\<lfloor>float_mul (float_of_int w) x\<rfloor> \<le> w"
    by (simp add: fm)
  show "\<lfloor>float_mul (float_of_int w) x\<rfloor> \<le> \<lfloor>of_int w * x\<rfloor> + 1"
  proof (cases "f + 1 \<le> w")
    case True
    have "f + 1 < 2 ^ 53" using True w by simp
    moreover have "- (2 ^ 53) \<le> f + 1" using f0 by simp
    ultimately have "round_double ?p \<le> of_int (f + 1)"
      using fp(2) by (intro round_double_le_int)
    then have "\<lfloor>round_double ?p\<rfloor> \<le> f + 1"
      by (metis floor_mono floor_of_int)
    then show ?thesis by (simp add: fm f_def)
  next
    case False
    with fw have "w \<le> f + 1" by simp
    with upf show ?thesis by (simp add: fm f_def)
  qed
  show "0 \<le> float_mul (float_of_int w) x"
    using round_double_ge_int [of 0 ?p] p0 by (simp add: fm)
qed

lemma float_product_bounds_neg:
  assumes w: "\<bar>w\<bar> < 2 ^ 53" and x: "0 \<le> x" "x \<le> 1" and neg: "w < 0"
  shows "py_int (float_mul (float_of_int w) x) \<le> 0"
    and "w \<le> py_int (float_mul (float_of_int w) x)"
proof -
  let ?p = "of_int w * x :: rat"
  have fm: "float_mul (float_of_int w) x = round_double ?p"
    by (simp add: float_mul_def float_of_int_exact [OF w])
  have p0: "?p \<le> of_int 0" using x neg by (simp add: mult_nonpos_nonneg)
  have pw: "of_int w \<le> ?p" using x neg by (simp add: mult_le_cancel_left2)
  have up: "round_double ?p \<le> of_int 0"
    using p0 by (rule round_double_le_int) simp_all
  have "- (2 ^ 53) < w" "w \<le> 2 ^ 53" using w neg by simp_all
  with pw have lo: "of_int w \<le> round_double ?p"
    by (rule round_double_ge_int)
  from up show "py_int (float_mul (float_of_int w) x) \<le> 0"
    by (simp add: fm py_int_def ceiling_le_iff)
  from lo show "w \<le> py_int (float_mul (float_of_int w) x)"
    by (simp add: fm py_int_def le_floor_iff le_ceiling_iff order_less_le_trans)
qed

subsection \<open>Evaluating the examples\<close>

lemma round_5000: "round_half_even 5000 = 5000"
  using round_half_even_of_int [of 5000] by simp

lemma round_0: "round_half_even 0 = 0"
  using round_half_even_of_int [of 0] by simp

lemma percent_of_half: "float_mul (float_of_int 100) (1 / 2) = 50"
  using round_double_of_int [of 100] round_double_of_int [of 50]
  by (simp add: float_mul_def float_of_int_def)

lemma percent_of_0: "float_mul (float_of_int 100) 0 = 0"
  by (simp add: float_mul_def round_double_def)

lemma format_50: "format_6_2f 50 = '' 50.00''"
  by (simp add: format_6_2f_def round_5000 digits.simps [of 50] digits.simps [of 5]
      digit_char_def Let_def)

lemma format_0: "format_6_2f 0 = ''  0.00''"
  by (simp add: format_6_2f_def round_0 digits.simps [of 0] digit_char_def Let_def
      numeral_2_eq_2)

lemma floor_69_halves: "\<lfloor>69 / 2 :: rat\<rfloor> = 34"
  by (rule floor_unique) simp_all

lemma example_percentage:
  "fst (Percentage_init 1 [] 0 False ud keep (world0 (Some 80))) =
     Inr \<lparr>use_thread = ud, keep_output = keep, progress = 0, message_obj = MsgList [],
          indicator = \<lparr>animator = Perc 0 (MsgList []), sleep_delay = 1, thread = None,
                        enabled = False\<rparr>\<rparr>"
  "trace (snd (Percentage_init 1 [] 0 False ud keep (world0 (Some 80)))) = []"
  "alive (snd (Percentage_init 1 [] 0 False ud keep (world0 (Some 80)))) = []"
  "spawned (snd (Percentage_init 1 [] 0 False ud keep (world0 (Some 80)))) = 0"
  "cells (snd (Percentage_init 1 [] 0 False ud keep (world0 (Some 80)))) 0 = 0"
  by (simp_all add: Percentage_init_def world0_def get_terminal_size_def
      ProgressIndicator_init_def Let_def)

subsection \<open>show\<close>

text \<open>
  C10. Every call of \<open>show()\<close>, for any frame sequence and in any state, writes one
  space, the next frame and one carriage return to standard output and then flushes; the
  text written before the carriage return is one character longer than the frame.
\<close>

theorem show_writes_space_frame_cr:
  "snd (ProgressIndicator_show self \<sigma>) =
     \<sigma>\<lparr>trace := trace \<sigma> @
        [Write (CHR '' '' # fst (next_frame (cells \<sigma>) (animator self)) @ [CR]), Flush]\<rparr>
   \<and> animator (fst (ProgressIndicator_show self \<sigma>)) =
       snd (next_frame (cells \<sigma>) (animator self))
   \<and> length (CHR '' '' # fst (next_frame (cells \<sigma>) (animator self))) =
       length (fst (next_frame (cells \<sigma>) (animator self))) + 1"
  by (simp add: ProgressIndicator_show_def stdout_write_def stdout_flush_def split: prod.split)

subsection \<open>start and stop\<close>

lemma task_inv_act: "task_inv st \<Longrightarrow> task_inv (act a st)"
  by (cases st; cases a)
     (auto simp: task_inv_def ProgressIndicator_start_def ProgressIndicator_stop_def
        ProgressIndicator_show_def render_def join_def stdout_write_def stdout_flush_def Let_def
        split: option.splits prod.splits if_splits)

lemma task_inv_run: "task_inv st \<Longrightarrow> task_inv (run acts st)"
  unfolding run_def by (induction acts arbitrary: st) (simp_all add: task_inv_act)

lemma task_inv_alive: "task_inv (self, \<sigma>) \<Longrightarrow> length (alive \<sigma>) \<le> 1"
  by (auto simp: task_inv_def split: if_splits option.splits)

text \<open>
  C4. \<open>start()\<close> on a running indicator changes nothing: no second thread is started and
  nothing is written. \<open>stop()\<close> on an indicator that is not running changes nothing and
  writes nothing. Whatever the caller and the background thread do, starting from an idle
  indicator with no thread, at most one background thread is alive at any time. So a
  second \<open>start()\<close> right after \<open>start()\<close>, and a second \<open>stop()\<close> right after
  \<open>stop()\<close>, change nothing.
\<close>

theorem start_stop_idempotent:
  "(enabled self \<longrightarrow> ProgressIndicator_start self \<sigma> = (self, \<sigma>)) \<and>
   (\<not> enabled self \<longrightarrow> ProgressIndicator_stop self \<sigma> = (self, \<sigma>)) \<and>
   (\<not> enabled self \<and> alive \<sigma> = [] \<longrightarrow> length (alive (snd (run acts (self, \<sigma>)))) \<le> 1) \<and>
   ProgressIndicator_start (fst (ProgressIndicator_start self \<sigma>))
       (snd (ProgressIndicator_start self \<sigma>)) = ProgressIndicator_start self \<sigma> \<and>
   ProgressIndicator_stop (fst (ProgressIndicator_stop self \<sigma>))
       (snd (ProgressIndicator_stop self \<sigma>)) = ProgressIndicator_stop self \<sigma>"
proof (intro conjI impI)
  assume "\<not> enabled self \<and> alive \<sigma> = []"
  then have "task_inv (self, \<sigma>)" by (simp add: task_inv_def)
  then have "task_inv (run acts (self, \<sigma>))" by (rule task_inv_run)
  then show "length (alive (snd (run acts (self, \<sigma>)))) \<le> 1"
    using task_inv_alive [of "fst (run acts (self, \<sigma>))" "snd (run acts (self, \<sigma>))"] by simp
qed (simp_all add: ProgressIndicator_start_def ProgressIndicator_stop_def Let_def)

theorem start_stop_idempotent_witness:
  "ProgressIndicator_stop
     \<lparr>animator = Spin [] 0, sleep_delay = 1 / 10, thread = None, enabled = False\<rparr>
     (world0 (Some 80)) =
   (\<lparr>animator = Spin [] 0, sleep_delay = 1 / 10, thread = None, enabled = False\<rparr>,
    world0 (Some 80))
   \<and> ProgressIndicator_start
       \<lparr>animator = Spin [] 0, sleep_delay = 1 / 10, thread = Some 0, enabled = True\<rparr>
       (world0 (Some 80)\<lparr>alive := [0], spawned := 1\<rparr>) =
     (\<lparr>animator = Spin [] 0, sleep_delay = 1 / 10, thread = Some 0, enabled = True\<rparr>,
      world0 (Some 80)\<lparr>alive := [0], spawned := 1\<rparr>)
   \<and> length (alive (snd (run [Start, Render 0, Start, Stop, Stop, Start, Show]
        (\<lparr>animator = Spin [] 0, sleep_delay = 1 / 10, thread = None, enabled = False\<rparr>,
         world0 (Some 80))))) \<le> 1"
  using
    start_stop_idempotent
      [of "\<lparr>animator = Spin [] 0, sleep_delay = 1 / 10, thread = None, enabled = False\<rparr>"
        "world0 (Some 80)" "[Start, Render 0, Start, Stop, Stop, Start, Show]"]
    start_stop_idempotent
      [of "\<lparr>animator = Spin [] 0, sleep_delay = 1 / 10, thread = Some 0, enabled = True\<rparr>"
        "world0 (Some 80)\<lparr>alive := [0], spawned := 1\<rparr>" "[]"]
  by (simp add: world0_def)

subsection \<open>Percentage.stop\<close>

text \<open>
  C1, as the code has it. With \<open>use_delayed_output\<close> set, \<open>stop()\<close> first renders one
  frame of the current progress value (a write and a flush), whether or not \<open>start()\<close> was
  ever called; then it writes the newline when \<open>keep_output\<close> is set; then, if the
  indicator is running, the background thread is joined and the line is erased. Without
  \<open>use_delayed_output\<close>, \<open>stop()\<close> renders no frame: it writes the newline when
  \<open>keep_output\<close> is set and then erases the line.
\<close>

theorem stop_final_frame:
  "percentage_ok self \<Longrightarrow>
   trace (snd (Percentage_stop self \<sigma>)) =
     trace \<sigma>
     @ (if use_thread self
        then [Write (CHR '' '' # perc (cells \<sigma>) (progress self) (message_obj self) @ [CR]), Flush]
        else [])
     @ (if keep_output self then [Write [NL]] else [])
     @ (if use_thread self then
          (if enabled (indicator self) then
             (case thread (indicator self) of
                Some t \<Rightarrow> if t \<in> set (alive \<sigma>) then [ThreadJoin t] else []
              | None \<Rightarrow> []) @ [Write [ESC, CHR ''['', CHR ''K'']]
           else [])
        else [Write [ESC, CHR ''['', CHR ''K'']])"
  by (simp add: percentage_ok_def Percentage_stop_def ProgressIndicator_show_def
      ProgressIndicator_stop_def join_def stdout_write_def stdout_flush_def Let_def
      split: option.splits)

text \<open>
  A running indicator in thread mode, made by the constructor and started: \<open>stop()\<close>
  renders the frame, writes the newline, joins the thread and erases the line.
\<close>

theorem stop_final_frame_witness:
  "percentage_ok (fst (Percentage_start
      (made (Percentage_init 1 [] 0 False True True (world0 (Some 80))))
      (snd (Percentage_init 1 [] 0 False True True (world0 (Some 80))))))
   \<and> trace (snd (Percentage_stop
        (fst (Percentage_start
          (made (Percentage_init 1 [] 0 False True True (world0 (Some 80))))
          (snd (Percentage_init 1 [] 0 False True True (world0 (Some 80))))))
        (snd (Percentage_start
          (made (Percentage_init 1 [] 0 False True True (world0 (Some 80))))
          (snd (Percentage_init 1 [] 0 False True True (world0 (Some 80)))))))) =
       [ThreadStart 0, Write (''   0.00%'' @ [CR]), Flush, Write [NL], ThreadJoin 0,
        Write [ESC, CHR ''['', CHR ''K'']]"
proof -
  have ok: "percentage_ok (fst (Percentage_start
      (made (Percentage_init 1 [] 0 False True True (world0 (Some 80))))
      (snd (Percentage_init 1 [] 0 False True True (world0 (Some 80))))))"
    by (simp add: made_def example_percentage Percentage_start_def ProgressIndicator_start_def
        percentage_ok_def Let_def)
  show ?thesis
    using ok stop_final_frame [OF ok,
        of "snd (Percentage_start
          (made (Percentage_init 1 [] 0 False True True (world0 (Some 80))))
          (snd (Percentage_init 1 [] 0 False True True (world0 (Some 80)))))"]
    by (simp add: made_def example_percentage Percentage_start_def ProgressIndicator_start_def
        perc_def percent_of_0 format_0 Let_def)
qed

text \<open>
  The claim C1 as written fails without \<open>use_delayed_output\<close>: \<open>stop()\<close> on
  \<open>Percentage(use_delayed_output=False)\<close> writes the newline and the erase sequence and
  renders no frame.
\<close>

theorem stop_without_thread_renders_nothing:
  "trace (snd (Percentage_stop
      (made (Percentage_init 1 [] 0 False False True (world0 (Some 80))))
      (snd (Percentage_init 1 [] 0 False False True (world0 (Some 80)))))) =
     [Write [NL], Write [ESC, CHR ''['', CHR ''K'']]"
  by (simp add: made_def example_percentage Percentage_stop_def stdout_write_def Let_def)

text \<open>
  C2. The claim has \<open>stop()\<close> leave the line erased whenever \<open>keep_output\<close> is not set,
  in every state, also when \<open>start()\<close> was never called. The code misses one state:
  on \<open>Percentage(use_delayed_output=True, keep_output=False)\<close> that was never started,
  \<open>stop()\<close> writes the frame \<open>0.00%\<close> and no erase sequence, so the frame stays on the
  line. Its two other paths do erase: without \<open>use_delayed_output\<close> the erase sequence is
  all that \<open>stop()\<close> writes, and on the same object after \<open>start()\<close> the frame is followed
  by the join of the thread and the erase sequence.
\<close>

theorem stop_idle_thread_mode_leaves_frame:
  "trace (snd (Percentage_stop
      (made (Percentage_init 1 [] 0 False True False (world0 (Some 80))))
      (snd (Percentage_init 1 [] 0 False True False (world0 (Some 80)))))) =
     [Write (''   0.00%'' @ [CR]), Flush]
   \<and> trace (snd (Percentage_stop
      (made (Percentage_init 1 [] 0 False False False (world0 (Some 80))))
      (snd (Percentage_init 1 [] 0 False False False (world0 (Some 80)))))) =
     [Write [ESC, CHR ''['', CHR ''K'']]
   \<and> trace (snd (Percentage_stop
      (fst (Percentage_start
        (made (Percentage_init 1 [] 0 False True False (world0 (Some 80))))
        (snd (Percentage_init 1 [] 0 False True False (world0 (Some 80))))))
      (snd (Percentage_start
        (made (Percentage_init 1 [] 0 False True False (world0 (Some 80))))
        (snd (Percentage_init 1 [] 0 False True False (world0 (Some 80)))))))) =
     [ThreadStart 0, Write (''   0.00%'' @ [CR]), Flush, ThreadJoin 0,
      Write [ESC, CHR ''['', CHR ''K'']]"
  by (simp add: made_def example_percentage Percentage_stop_def Percentage_start_def
      ProgressIndicator_show_def ProgressIndicator_start_def ProgressIndicator_stop_def join_def
      stdout_write_def stdout_flush_def perc_def percent_of_0 format_0 Let_def)

subsection \<open>The bar\<close>

lemma bar_getitem_nonneg:
  assumes "\<bar>w\<bar> < 2 ^ 53" "0 \<le> cs a" "cs a \<le> 1" "0 \<le> w"
  shows "bar_getitem cs (Bar a m w) =
     m @ ''['' @ py_repeat ''#'' \<lfloor>float_mul (float_of_int w) (cs a)\<rfloor> @
     py_repeat '' '' (w - \<lfloor>float_mul (float_of_int w) (cs a)\<rfloor>) @ ''] ''"
  using float_product_bounds(4) [OF assms]
  by (simp add: bar_getitem_def py_int_def Let_def)

lemma bar_getitem_neg:
  assumes "\<bar>w\<bar> < 2 ^ 53" "0 \<le> cs a" "cs a \<le> 1" "w < 0"
  shows "bar_getitem cs (Bar a m w) = m @ ''[] ''"
  using float_product_bounds_neg [OF assms]
  by (simp add: bar_getitem_def py_repeat_def Let_def)

lemma bar_example:
  "bar_getitem (\<lambda>a. 1 / 2) (bar_init 0 [] 80) =
     ''['' @ replicate 34 CHR ''#'' @ replicate 35 CHR '' '' @ ''] ''"
  by (simp add: bar_getitem_def bar_init_def py_int_def py_repeat_def Let_def half_product
      floor_69_halves)

lemma two_thirds_product:
  "float_mul (float_of_int 6) (6004799503160661 / 18014398509481984) = 2"
  by code_simp

lemma Percentage_init_bar:
  assumes "fst (Percentage_init delay message percentage True use_delayed_output keep \<sigma>) =
      Inr self"
  shows "\<exists>columns. terminal \<sigma> = Some columns \<and>
           message_obj self =
             MsgBar (bar_init (progress self)
                       (if columns < length message + 12 then [] else message) columns)"
proof (cases "terminal \<sigma>")
  case None
  with assms show ?thesis
    by (simp add: Percentage_init_def get_terminal_size_def Let_def)
next
  case (Some columns)
  show ?thesis
  proof (cases "0 < delay")
    case False
    with assms Some show ?thesis
      by (simp add: Percentage_init_def get_terminal_size_def ProgressIndicator_init_def Let_def
          split: if_splits)
  next
    case True
    with assms Some show ?thesis
      by (cases "columns < length message + 12")
         (auto simp: Percentage_init_def get_terminal_size_def ProgressIndicator_init_def Let_def)
  qed
qed

text \<open>
  C3, as the code has it. For terminal width \<open>width\<close>, message \<open>m\<close> (as the width guard
  leaves it) and a progress value in \<open>[0, 1]\<close>, with \<open>bar_width = width - len(m) - 11\<close>
  (below \<open>2 ^ 53\<close> in size): \<open>filled\<close> is \<open>int(bar_width * p)\<close>, where the product is
  the product of floats, rounded to the nearest double. For a bar width that is not
  negative, \<open>filled\<close> is \<open>floor(bar_width * p)\<close> of the exact product or one more, and lies
  between 0 and the bar width; the bar string is \<open>m\<close>, an opening bracket, \<open>filled\<close>
  times \<open>#\<close>, \<open>bar_width - filled\<close> spaces and \<open>"] "\<close>. For a negative bar width no
  \<open>#\<close> and no space is drawn. For width 80, the empty message and progress 0.5 the bar
  string is the bracket, 34 times \<open>#\<close>, 35 spaces and \<open>"] "\<close>. The bar of a \<open>Percentage\<close>
  made with \<open>use_bar\<close> has the terminal's width and the message that the width guard
  leaves.
\<close>

theorem bar_string:
  "(\<bar>int width - int (length m) - 11\<bar> < 2 ^ 53 \<and> 0 \<le> cs a \<and> cs a \<le> 1 \<and>
    length m + 11 \<le> width \<longrightarrow>
      bar_getitem cs (bar_init a m width) =
        m @ ''['' @
        py_repeat ''#''
          \<lfloor>float_mul (float_of_int (int width - int (length m) - 11)) (cs a)\<rfloor> @
        py_repeat '' ''
          (int width - int (length m) - 11
           - \<lfloor>float_mul (float_of_int (int width - int (length m) - 11)) (cs a)\<rfloor>) @
        ''] ''
      \<and> \<lfloor>of_int (int width - int (length m) - 11) * cs a\<rfloor>
          \<le> \<lfloor>float_mul (float_of_int (int width - int (length m) - 11)) (cs a)\<rfloor>
      \<and> \<lfloor>float_mul (float_of_int (int width - int (length m) - 11)) (cs a)\<rfloor>
          \<le> \<lfloor>of_int (int width - int (length m) - 11) * cs a\<rfloor> + 1
      \<and> 0 \<le> \<lfloor>float_mul (float_of_int (int width - int (length m) - 11)) (cs a)\<rfloor>
      \<and> \<lfloor>float_mul (float_of_int (int width - int (length m) - 11)) (cs a)\<rfloor>
          \<le> int width - int (length m) - 11)
   \<and> (\<bar>int width - int (length m) - 11\<bar> < 2 ^ 53 \<and> 0 \<le> cs a \<and> cs a \<le> 1 \<and>
      width < length m + 11 \<longrightarrow>
        bar_getitem cs (bar_init a m width) = m @ ''[] '')
   \<and> bar_getitem (\<lambda>a. 1 / 2) (bar_init 0 [] 80) =
        ''['' @ replicate 34 CHR ''#'' @ replicate 35 CHR '' '' @ ''] ''
   \<and> (fst (Percentage_init delay message percentage True use_delayed_output keep \<sigma>) = Inr self
        \<longrightarrow>
        (\<exists>columns. terminal \<sigma> = Some columns \<and>
           message_obj self =
             MsgBar (bar_init (progress self)
                       (if columns < length message + 12 then [] else message) columns)))"
proof (intro conjI impI)
  let ?w = "int width - int (length m) - 11"
  assume h: "\<bar>?w\<bar> < 2 ^ 53 \<and> 0 \<le> cs a \<and> cs a \<le> 1 \<and> length m + 11 \<le> width"
  then have w: "\<bar>?w\<bar> < 2 ^ 53" and x0: "0 \<le> cs a" and x1: "cs a \<le> 1"
    by blast+
  from h have "length m + 11 \<le> width" by blast
  then have w0: "0 \<le> ?w" by linarith
  show "bar_getitem cs (bar_init a m width) =
        m @ ''['' @ py_repeat ''#'' \<lfloor>float_mul (float_of_int ?w) (cs a)\<rfloor> @
        py_repeat '' '' (?w - \<lfloor>float_mul (float_of_int ?w) (cs a)\<rfloor>) @ ''] ''"
    unfolding bar_init_def by (rule bar_getitem_nonneg [where cs = cs and a = a, OF w x0 x1 w0])
  show "\<lfloor>of_int ?w * cs a\<rfloor> \<le> \<lfloor>float_mul (float_of_int ?w) (cs a)\<rfloor>"
    by (rule float_product_bounds(1) [OF w x0 x1 w0])
  show "\<lfloor>float_mul (float_of_int ?w) (cs a)\<rfloor> \<le> \<lfloor>of_int ?w * cs a\<rfloor> + 1"
    by (rule float_product_bounds(2) [OF w x0 x1 w0])
  show "0 \<le> \<lfloor>float_mul (float_of_int ?w) (cs a)\<rfloor>"
    using float_product_bounds(4) [OF w x0 x1 w0] by simp
  show "\<lfloor>float_mul (float_of_int ?w) (cs a)\<rfloor> \<le> ?w"
    by (rule float_product_bounds(3) [OF w x0 x1 w0])
next
  let ?w = "int width - int (length m) - 11"
  assume h: "\<bar>?w\<bar> < 2 ^ 53 \<and> 0 \<le> cs a \<and> cs a \<le> 1 \<and> width < length m + 11"
  then have w: "\<bar>?w\<bar> < 2 ^ 53" and x0: "0 \<le> cs a" and x1: "cs a \<le> 1"
    by blast+
  from h have "width < length m + 11" by blast
  then have w0: "?w < 0" by linarith
  show "bar_getitem cs (bar_init a m width) = m @ ''[] ''"
    unfolding bar_init_def by (rule bar_getitem_neg [where cs = cs and a = a, OF w x0 x1 w0])
next
  show "bar_getitem (\<lambda>a. 1 / 2) (bar_init 0 [] 80) =
        ''['' @ replicate 34 CHR ''#'' @ replicate 35 CHR '' '' @ ''] ''"
    by (rule bar_example)
next
  assume "fst (Percentage_init delay message percentage True use_delayed_output keep \<sigma>) =
      Inr self"
  then show "\<exists>columns. terminal \<sigma> = Some columns \<and>
           message_obj self =
             MsgBar (bar_init (progress self)
                       (if columns < length message + 12 then [] else message) columns)"
    by (rule Percentage_init_bar)
qed

text \<open>
  On 20 columns with the message \<open>"ab "\<close> the bar is 6 wide. For the double nearest to
  one third the float product \<open>6 * p\<close> is 2, so two \<open>#\<close> are drawn, one more than the
  floor of the exact product.
\<close>

theorem bar_string_witness:
  "bar_getitem (\<lambda>a. 6004799503160661 / 18014398509481984) (bar_init 0 ''ab '' 20) =
     ''ab [##    ] ''
   \<and> \<lfloor>of_int (int 20 - int (length ''ab '') - 11)
        * (6004799503160661 / 18014398509481984 :: rat)\<rfloor> \<le> 2"
proof -
  have h: "\<bar>int 20 - int (length ''ab '') - 11\<bar> < 2 ^ 53
      \<and> 0 \<le> (\<lambda>a :: nat. 6004799503160661 / 18014398509481984 :: rat) 0
      \<and> (\<lambda>a :: nat. 6004799503160661 / 18014398509481984 :: rat) 0 \<le> 1
      \<and> length ''ab '' + 11 \<le> (20 :: nat)"
    by simp
  note b = bar_string [where cs = "\<lambda>a. 6004799503160661 / 18014398509481984" and a = 0
      and m = "''ab ''" and width = 20, THEN conjunct1, rule_format, OF h]
  have 1: "bar_getitem (\<lambda>a. 6004799503160661 / 18014398509481984) (bar_init 0 ''ab '' 20) =
     ''ab [##    ] ''"
    using b [THEN conjunct1]
    by (simp add: two_thirds_product py_repeat_def eval_nat_numeral)
  have 2: "\<lfloor>of_int (int 20 - int (length ''ab '') - 11)
        * (6004799503160661 / 18014398509481984 :: rat)\<rfloor> \<le> 2"
    using b [THEN conjunct2, THEN conjunct1]
    by (simp add: two_thirds_product)
  show ?thesis using 1 2 by blast
qed

text \<open>
  The claim C3 as written fails for the double nearest to one third on 80 columns with
  the empty message (bar width 69): the float product \<open>69 * p\<close> is 23, so the bar has 23
  times \<open>#\<close> and 46 spaces, while the floor of the exact product is 22.
\<close>

theorem bar_filled_above_floor:
  "bar_getitem (\<lambda>a. 6004799503160661 / 18014398509481984) (bar_init 0 [] 80) =
     ''['' @ replicate 23 CHR ''#'' @ replicate 46 CHR '' '' @ ''] ''
   \<and> \<lfloor>(69 :: rat) * (6004799503160661 / 18014398509481984)\<rfloor> = 22
   \<and> round_double (1 / 3) = 6004799503160661 / 18014398509481984"
proof (intro conjI)
  show "bar_getitem (\<lambda>a. 6004799503160661 / 18014398509481984) (bar_init 0 [] 80) =
     ''['' @ replicate 23 CHR ''#'' @ replicate 46 CHR '' '' @ ''] ''"
    by (simp add: bar_getitem_def bar_init_def py_int_def py_repeat_def Let_def
        product_rounds_up)
  show "\<lfloor>(69 :: rat) * (6004799503160661 / 18014398509481984)\<rfloor> = 22"
    by (rule exact_floor)
  show "round_double (1 / 3) = 6004799503160661 / 18014398509481984"
    by (rule third_is_double)
qed

subsection \<open>The frames of Dots\<close>

lemma nth_frame_DotsGen:
  "0 < N \<Longrightarrow> 1 \<le> n \<Longrightarrow> n \<le> N \<Longrightarrow>
   nth_frame cs (DotsGen message N dot blank n) k =
     dots_frame message N dot blank ((n - 1 + int k) mod N + 1)"
proof (induction k arbitrary: n)
  case 0
  then show ?case by simp
next
  case (Suc k)
  show ?case
  proof (cases "n < N")
    case True
    with Suc.prems Suc.IH [of "n + 1"] show ?thesis
      by (simp add: algebra_simps)
  next
    case False
    with Suc.prems have n: "n = N" by simp
    have "(N - 1 + int (Suc k)) mod N = (int k + N) mod N"
      by (simp add: algebra_simps)
    also have "\<dots> = int k mod N" by simp
    finally show ?thesis using Suc.prems Suc.IH [of 1] n by simp
  qed
qed

lemma length_py_repeat: "length (py_repeat s n) = nat n * length s"
  by (simp add: py_repeat_def length_concat sum_list_replicate)

text \<open>
  C5. For \<open>num_dots > 0\<close> and \<open>len(dot) = len(blank)\<close>, the frames of \<open>dots()\<close> repeat a
  cycle of \<open>num_dots\<close> frames for ever: the frame at position \<open>k\<close> (from 0) is the
  message, \<open>n\<close> copies of \<open>dot\<close> and \<open>num_dots - n\<close> copies of \<open>blank\<close> with
  \<open>n = k mod num_dots + 1\<close>, and all frames have the same length. The generator that
  \<open>Dots(...)\<close> makes starts at \<open>n = 1\<close>; its message is the one given, or the empty one
  when the width guard has printed it.
\<close>

theorem dots_frames_cycle:
  "(0 < num_dots \<and> length dot = length blank \<longrightarrow>
      nth_frame cs (DotsGen message num_dots dot blank 1) k =
        message @ py_repeat dot (int k mod num_dots + 1) @
        py_repeat blank (num_dots - (int k mod num_dots + 1))
      \<and> length (nth_frame cs (DotsGen message num_dots dot blank 1) k) =
          length message + nat num_dots * length dot)
   \<and> (fst (Dots delay message num_dots dot blank \<sigma>) = Inr ind \<longrightarrow>
        (\<exists>columns. terminal \<sigma> = Some columns \<and>
           animator ind =
             DotsGen (if int columns < num_dots + int (length message) + 1 then [] else message)
               num_dots dot blank 1))"
proof (intro conjI impI)
  assume h: "0 < num_dots \<and> length dot = length blank"
  then have f: "nth_frame cs (DotsGen message num_dots dot blank 1) k =
      dots_frame message num_dots dot blank (int k mod num_dots + 1)"
    using nth_frame_DotsGen [of num_dots 1 cs message dot blank k] by simp
  then show "nth_frame cs (DotsGen message num_dots dot blank 1) k =
        message @ py_repeat dot (int k mod num_dots + 1) @
        py_repeat blank (num_dots - (int k mod num_dots + 1))"
    by (simp add: dots_frame_def)
  have "0 \<le> int k mod num_dots" "int k mod num_dots < num_dots"
    using h by simp_all
  then have "nat (int k mod num_dots + 1) + nat (num_dots - (int k mod num_dots + 1)) =
      nat num_dots"
    by linarith
  then have "nat (int k mod num_dots + 1) * length dot
      + nat (num_dots - (int k mod num_dots + 1)) * length dot = nat num_dots * length dot"
    by (metis distrib_right)
  then show "length (nth_frame cs (DotsGen message num_dots dot blank 1) k) =
          length message + nat num_dots * length dot"
    using h by (simp add: f dots_frame_def length_py_repeat)
next
  assume "fst (Dots delay message num_dots dot blank \<sigma>) = Inr ind"
  then show "\<exists>columns. terminal \<sigma> = Some columns \<and>
           animator ind =
             DotsGen (if int columns < num_dots + int (length message) + 1 then [] else message)
               num_dots dot blank 1"
    by (auto simp: Dots_def get_terminal_size_def ProgressIndicator_init_def Let_def
        split: if_splits option.splits)
qed

theorem dots_frames_cycle_witness:
  "nth_frame (\<lambda>a. 0) (DotsGen ''waiting'' 3 ''.'' '' '' 1) 4 = ''waiting.. ''
   \<and> length (nth_frame (\<lambda>a. 0) (DotsGen ''waiting'' 3 ''.'' '' '' 1) 4) = 10
   \<and> animator (made (Dots 1 ''waiting'' 3 ''.'' '' '' (world0 (Some 80)))) =
       DotsGen ''waiting'' 3 ''.'' '' '' 1"
  using dots_frames_cycle [of 3 "''.''" "'' ''" "\<lambda>a. 0" "''waiting''" 4 1 "world0 (Some 80)"
      "made (Dots 1 ''waiting'' 3 ''.'' '' '' (world0 (Some 80)))"]
  by (simp add: py_repeat_def eval_nat_numeral made_def Dots_def get_terminal_size_def world0_def
      ProgressIndicator_init_def)

subsection \<open>Percentage.set_progress\<close>

lemma Percentage_init_inv:
  assumes "alive \<sigma>0 = []"
    and "fst (Percentage_init delay message percentage use_bar use_delayed_output keep \<sigma>0) =
           Inr self"
  shows "percentage_inv
           (self, snd (Percentage_init delay message percentage use_bar use_delayed_output keep \<sigma>0))"
  using assms
  by (auto simp: Percentage_init_def percentage_inv_def percentage_ok_def task_inv_def
      ProgressIndicator_init_def get_terminal_size_def py_print_def stdout_write_def Let_def
      split: option.splits if_splits sum.splits prod.splits)

lemma Percentage_init_fields:
  "fst (Percentage_init delay message percentage use_bar use_delayed_output keep \<sigma>0) = Inr self
   \<Longrightarrow> use_thread self = use_delayed_output \<and> keep_output self = keep"
  by (auto simp: Percentage_init_def ProgressIndicator_init_def get_terminal_size_def Let_def
      split: option.splits if_splits sum.splits prod.splits)

lemma Percentage_init_plain:
  "fst (Percentage_init delay message percentage use_bar use_delayed_output keep \<sigma>0) = Inr self
   \<Longrightarrow> \<not> use_bar \<Longrightarrow> \<exists>m. message_obj self = MsgList m"
  by (auto simp: Percentage_init_def ProgressIndicator_init_def get_terminal_size_def Let_def
      split: option.splits if_splits sum.splits prod.splits)

lemma percentage_inv_pact: "percentage_inv st \<Longrightarrow> percentage_inv (pact a st)"
  by (cases st; cases a)
     (auto simp: percentage_inv_def percentage_ok_def task_inv_def
        Percentage_start_def Percentage_stop_def Percentage_set_progress_def
        ProgressIndicator_start_def ProgressIndicator_stop_def
        ProgressIndicator_show_def render_def join_def stdout_write_def stdout_flush_def Let_def
        split: option.splits prod.splits if_splits)

lemma percentage_inv_prun: "percentage_inv st \<Longrightarrow> percentage_inv (prun acts st)"
  unfolding prun_def by (induction acts arbitrary: st) (simp_all add: percentage_inv_pact)

lemma pact_fields:
  "use_thread (fst (pact a st)) = use_thread (fst st) \<and>
   keep_output (fst (pact a st)) = keep_output (fst st) \<and>
   message_obj (fst (pact a st)) = message_obj (fst st)"
  by (cases st; cases a)
     (auto simp: Percentage_start_def Percentage_stop_def Percentage_set_progress_def Let_def
        split: prod.splits)

lemma prun_fields:
  "use_thread (fst (prun acts st)) = use_thread (fst st) \<and>
   keep_output (fst (prun acts st)) = keep_output (fst st) \<and>
   message_obj (fst (prun acts st)) = message_obj (fst st)"
  unfolding prun_def by (induction acts arbitrary: st) (simp_all add: pact_fields)

lemma set_progress_effect:
  "percentage_ok self \<Longrightarrow>
   cells (snd (Percentage_set_progress self v \<sigma>)) = (cells \<sigma>)(progress self := v) \<and>
   trace (snd (Percentage_set_progress self v \<sigma>)) =
     trace \<sigma> @
     (if enabled (indicator self) then []
      else [Write (CHR '' '' # perc ((cells \<sigma>)(progress self := v)) (progress self)
                                (message_obj self) @ [CR]), Flush])"
  by (simp add: percentage_ok_def Percentage_set_progress_def ProgressIndicator_show_def
      stdout_write_def stdout_flush_def Let_def)

lemma percentage_inv_idle:
  "percentage_inv (self, \<sigma>) \<Longrightarrow> (alive \<sigma> = []) = (\<not> enabled (indicator self))"
  by (auto simp: percentage_inv_def task_inv_def split: option.splits if_splits)

lemma set_progress_half_then_stop:
  assumes "percentage_ok self" "\<not> use_thread self" "\<not> enabled (indicator self)"
    and "message_obj self = MsgList m"
  shows "trace (snd (Percentage_stop (fst (Percentage_set_progress self (1 / 2) \<sigma>))
                   (snd (Percentage_set_progress self (1 / 2) \<sigma>)))) =
     trace \<sigma> @ [Write (CHR '' '' # m @ '' 50.00%'' @ [CR]), Flush] @
     (if keep_output self then [Write [NL]] else []) @ [Write [ESC, CHR ''['', CHR ''K'']]"
  using assms
  by (simp add: percentage_ok_def Percentage_set_progress_def Percentage_stop_def
      ProgressIndicator_show_def stdout_write_def stdout_flush_def perc_def percent_of_half
      format_50 Let_def)

text \<open>
  C6. Take any \<open>Percentage\<close> object made by the constructor, in any state that calls of
  \<open>start\<close>, \<open>stop\<close> and \<open>set_progress\<close> and turns of the background loop lead to. Then
  \<open>set_progress(v)\<close> stores \<open>v\<close> in the shared progress list, and it renders exactly one
  frame (the message, the float \<open>100 * v\<close> in the format \<open>6.2f\<close> and a percent sign) if no
  background thread is alive, and nothing otherwise. No thread is alive exactly when the
  running flag is not set, and always without \<open>use_delayed_output\<close>. In particular,
  without \<open>use_delayed_output\<close> and without the bar, \<open>set_progress(0.5)\<close> followed by
  \<open>stop()\<close> writes the frame \<open>50.00%\<close> first, then the newline (with \<open>keep_output\<close>) and
  the erase sequence.
\<close>

theorem set_progress_renders_iff_idle:
  assumes "alive \<sigma>0 = []"
    and "fst (Percentage_init delay message percentage use_bar use_delayed_output keep \<sigma>0) =
           Inr self0"
    and "prun acts
           (self0,
            snd (Percentage_init delay message percentage use_bar use_delayed_output keep \<sigma>0)) =
           (self, \<sigma>)"
  shows "cells (snd (Percentage_set_progress self v \<sigma>)) (progress self) = v
     \<and> trace (snd (Percentage_set_progress self v \<sigma>)) =
         trace \<sigma> @
         (if alive \<sigma> = []
          then [Write (CHR '' '' # getitem0 ((cells \<sigma>)(progress self := v)) (message_obj self) @
                         format_6_2f (float_mul (float_of_int 100) v) @ ''%'' @ [CR]), Flush]
          else [])
     \<and> (alive \<sigma> = [] \<longleftrightarrow> \<not> enabled (indicator self))
     \<and> (\<not> use_delayed_output \<longrightarrow> alive \<sigma> = [])
     \<and> (\<not> use_delayed_output \<and> \<not> use_bar \<longrightarrow>
          (\<exists>m. message_obj self = MsgList m \<and>
             trace (snd (Percentage_stop (fst (Percentage_set_progress self (1 / 2) \<sigma>))
                           (snd (Percentage_set_progress self (1 / 2) \<sigma>)))) =
               trace \<sigma> @ [Write (CHR '' '' # m @ '' 50.00%'' @ [CR]), Flush] @
               (if keep then [Write [NL]] else []) @ [Write [ESC, CHR ''['', CHR ''K'']]))"
proof -
  let ?r = "Percentage_init delay message percentage use_bar use_delayed_output keep \<sigma>0"
  have inv: "percentage_inv (self, \<sigma>)"
    using percentage_inv_prun [OF Percentage_init_inv [OF assms(1,2)], of acts] assms(3) by simp
  then have ok: "percentage_ok self" and en: "enabled (indicator self) \<longrightarrow> use_thread self"
    by (simp_all add: percentage_inv_def)
  have idle: "(alive \<sigma> = []) = (\<not> enabled (indicator self))"
    using inv by (rule percentage_inv_idle)
  have fields: "use_thread self = use_delayed_output \<and> keep_output self = keep \<and>
      message_obj self = message_obj self0"
    using prun_fields [of acts "(self0, snd ?r)"] assms(3) Percentage_init_fields [OF assms(2)]
    by simp
  have 1: "cells (snd (Percentage_set_progress self v \<sigma>)) (progress self) = v"
    using set_progress_effect [OF ok, of v \<sigma>] by simp
  have 2: "trace (snd (Percentage_set_progress self v \<sigma>)) =
         trace \<sigma> @
         (if alive \<sigma> = []
          then [Write (CHR '' '' # getitem0 ((cells \<sigma>)(progress self := v)) (message_obj self) @
                         format_6_2f (float_mul (float_of_int 100) v) @ ''%'' @ [CR]), Flush]
          else [])"
    using set_progress_effect [OF ok, of v \<sigma>] by (simp add: idle perc_def)
  have 4: "\<not> use_delayed_output \<longrightarrow> alive \<sigma> = []"
    using en fields idle by auto
  have 5: "\<not> use_delayed_output \<and> \<not> use_bar \<longrightarrow>
          (\<exists>m. message_obj self = MsgList m \<and>
             trace (snd (Percentage_stop (fst (Percentage_set_progress self (1 / 2) \<sigma>))
                           (snd (Percentage_set_progress self (1 / 2) \<sigma>)))) =
               trace \<sigma> @ [Write (CHR '' '' # m @ '' 50.00%'' @ [CR]), Flush] @
               (if keep then [Write [NL]] else []) @ [Write [ESC, CHR ''['', CHR ''K'']])"
  proof
    assume a: "\<not> use_delayed_output \<and> \<not> use_bar"
    then obtain m where m: "message_obj self = MsgList m"
      using Percentage_init_plain [OF assms(2)] fields by auto
    have "\<not> use_thread self" "\<not> enabled (indicator self)"
      using en fields a by simp_all
    from set_progress_half_then_stop [OF ok this m, of \<sigma>] m fields
    show "\<exists>m. message_obj self = MsgList m \<and>
             trace (snd (Percentage_stop (fst (Percentage_set_progress self (1 / 2) \<sigma>))
                           (snd (Percentage_set_progress self (1 / 2) \<sigma>)))) =
               trace \<sigma> @ [Write (CHR '' '' # m @ '' 50.00%'' @ [CR]), Flush] @
               (if keep then [Write [NL]] else []) @ [Write [ESC, CHR ''['', CHR ''K'']]"
      by simp
  qed
  show ?thesis using 1 2 idle 4 5 by blast
qed

text \<open>
  \<open>Percentage(use_delayed_output=False)\<close> on an 80 column terminal, after \<open>start()\<close>:
  \<open>set_progress(0.5)\<close> writes the frame, and \<open>stop()\<close> then the newline and the erase
  sequence.
\<close>

theorem set_progress_renders_iff_idle_witness:
  "trace (snd (Percentage_set_progress
       (made (Percentage_init 1 [] 0 False False True (world0 (Some 80)))) (1 / 2)
       (snd (Percentage_init 1 [] 0 False False True (world0 (Some 80)))))) =
     [Write (''  50.00%'' @ [CR]), Flush]
   \<and> trace (snd (Percentage_stop
       (fst (Percentage_set_progress
          (made (Percentage_init 1 [] 0 False False True (world0 (Some 80)))) (1 / 2)
          (snd (Percentage_init 1 [] 0 False False True (world0 (Some 80))))))
       (snd (Percentage_set_progress
          (made (Percentage_init 1 [] 0 False False True (world0 (Some 80)))) (1 / 2)
          (snd (Percentage_init 1 [] 0 False False True (world0 (Some 80)))))))) =
     [Write (''  50.00%'' @ [CR]), Flush, Write [NL], Write [ESC, CHR ''['', CHR ''K'']]"
proof -
  let ?r = "Percentage_init 1 [] 0 False False True (world0 (Some 80))"
  have h1: "alive (world0 (Some 80)) = []"
    by (simp add: world0_def)
  have h2: "fst ?r = Inr (made ?r)"
    by (simp add: made_def example_percentage)
  have h3: "prun [PStart] (made ?r, snd ?r) = (made ?r, snd ?r)"
    by (simp add: prun_def made_def example_percentage Percentage_start_def)
  show ?thesis
    using set_progress_renders_iff_idle [OF h1 h2 h3, of "1 / 2"]
    by (simp add: made_def example_percentage percent_of_half format_50)
qed

subsection \<open>Construction\<close>

text \<open>
  C7, as the code has it. \<open>ProgressIndicator(animator, delay)\<close> fails, with an
  \<open>AssertionError\<close>, exactly when \<open>delay \<le> 0\<close>. \<open>Dots(...)\<close> fails with an
  \<open>AssertionError\<close> exactly when \<open>len(dot) \<noteq> len(blank)\<close>, or \<open>num_dots \<le> 0\<close>, or a
  terminal is attached and \<open>delay \<le> 0\<close>: it passes its delay on to
  \<open>ProgressIndicator.__init__\<close>. When all three preconditions hold no assertion fails.
\<close>

theorem construction_assertions:
  "(ProgressIndicator_init a delay = Inl AssertionError \<longleftrightarrow> delay \<le> 0)
   \<and> (isl (ProgressIndicator_init a delay) \<longleftrightarrow> delay \<le> 0)
   \<and> (fst (Dots delay message num_dots dot blank \<sigma>) = Inl AssertionError \<longleftrightarrow>
        length dot \<noteq> length blank \<or> num_dots \<le> 0 \<or> (terminal \<sigma> \<noteq> None \<and> delay \<le> 0))"
  by (auto simp: ProgressIndicator_init_def Dots_def get_terminal_size_def Let_def
      split: option.splits if_splits prod.splits)

theorem construction_assertions_witness:
  "ProgressIndicator_init (Spin [] 0) (- 1) = Inl AssertionError
   \<and> \<not> isl (ProgressIndicator_init (Spin [] 0) 1)
   \<and> fst (Dots 1 [] 3 ''..'' '' '' (world0 (Some 80))) = Inl AssertionError
   \<and> fst (Dots 1 [] 0 ''.'' '' '' (world0 (Some 80))) = Inl AssertionError
   \<and> fst (Dots 1 [] 3 ''.'' '' '' (world0 (Some 80))) \<noteq> Inl AssertionError"
  using construction_assertions [of "Spin [] 0" "- 1"]
    construction_assertions [of "Spin [] 0" 1 "[]" 3 "''..''" "'' ''" "world0 (Some 80)"]
    construction_assertions [of "Spin [] 0" 1 "[]" 0 "''.''" "'' ''" "world0 (Some 80)"]
    construction_assertions [of "Spin [] 0" 1 "[]" 3 "''.''" "'' ''" "world0 (Some 80)"]
  by (simp add: world0_def)

text \<open>
  The claim C7 as written fails for \<open>Dots(delay=0)\<close>: the call fails with an
  \<open>AssertionError\<close> although \<open>len(dot) = len(blank)\<close> and \<open>num_dots > 0\<close>.
\<close>

theorem dots_fails_on_delay:
  "fst (Dots 0 [] 3 ''.'' '' '' (world0 (Some 80))) = Inl AssertionError
   \<and> \<not> (length ''.'' \<noteq> length '' '' \<or> (3 :: int) \<le> 0)"
  by (simp add: Dots_def ProgressIndicator_init_def get_terminal_size_def world0_def)

text \<open>
  C8, as the code has it. When no terminal is attached, \<open>os.get_terminal_size()\<close> raises
  \<open>OSError\<close> and no preset handles it: \<open>Spinner(...)\<close> and \<open>Percentage(...)\<close> fail with
  \<open>OSError\<close>, and so does \<open>Dots(...)\<close> unless one of its own assertions has failed
  before. No default width is assumed, and no object is made.
\<close>

theorem no_terminal_propagates:
  "terminal \<sigma> = None \<Longrightarrow>
   fst (Spinner delay message \<sigma>) = Inl OSError
   \<and> fst (Percentage_init delay message percentage use_bar use_delayed_output keep \<sigma>) =
       Inl OSError
   \<and> fst (Dots delay message num_dots dot blank \<sigma>) =
       Inl (if length dot = length blank \<and> 0 < num_dots then OSError else AssertionError)"
  by (simp add: Spinner_def Percentage_init_def Dots_def get_terminal_size_def Let_def)

theorem no_terminal_propagates_witness:
  "terminal (world0 None) = None
   \<and> fst (Percentage_init 1 ''download '' 0 True True True (world0 None)) = Inl OSError
   \<and> fst (Dots 1 ''waiting'' 3 ''.'' '' '' (world0 None)) = Inl OSError"
proof -
  have h: "terminal (world0 None) = None"
    by (simp add: world0_def)
  show ?thesis
    using h no_terminal_propagates [OF h, of 1 "''download ''" 0 True True True 3 "''.''" "'' ''"]
      no_terminal_propagates [OF h, of 1 "''waiting''" 0 True True True 3 "''.''" "'' ''"]
    by simp
qed

text \<open>
  The claim C8 as written fails: with no terminal attached, \<open>Spinner()\<close> with its default
  arguments raises \<open>OSError\<close> to the caller.
\<close>

theorem spinner_without_terminal_fails:
  "fst (Spinner (1 / 10) [] (world0 None)) = Inl OSError"
  by (simp add: Spinner_def get_terminal_size_def world0_def)

section \<open>Properties of cleanData.py\<close>

lemma endswith_iff: "endswith s suffix \<longleftrightarrow> (\<exists>pre. s = pre @ suffix)"
proof
  assume "endswith s suffix"
  then have "s = take (length s - length suffix) s @ suffix"
    by (metis append_take_drop_id endswith_def)
  then show "\<exists>pre. s = pre @ suffix" ..
next
  assume "\<exists>pre. s = pre @ suffix"
  then show "endswith s suffix" by (auto simp: endswith_def)
qed

lemma endswith_py_join: "endswith item suffix \<Longrightarrow> endswith (py_join directory item) suffix"
  by (auto simp: endswith_iff py_join_def)

lemma removed_files_append:
  "removed_files (xs @ ys) = removed_files xs @ removed_files ys"
  by (induction xs rule: removed_files.induct) simp_all

lemma removes_only_refl: "removes_only P s s"
  by (simp add: removes_only_def)

lemma removes_only_trans:
  "removes_only P s s1 \<Longrightarrow> removes_only P s1 s2 \<Longrightarrow> removes_only P s s2"
  by (auto simp: removes_only_def)

lemma removes_only_print2: "removes_only P s (print2 a b s)"
  by (simp add: removes_only_def print2_def removed_files_append)

lemma removes_only_os_remove:
  "P path \<Longrightarrow> removes_only P s (snd (os_remove place item path s))"
  by (auto simp: removes_only_def os_remove_def removed_files_append
      split: option.splits entry.splits bool.splits)

lemma removes_only_rmdir_if_empty: "removes_only P s (rmdir_if_empty cdir directory s)"
  by (auto simp: removes_only_def rmdir_if_empty_def os_rmdir_def print2_def removed_files_append
      split: option.splits entry.splits list.splits)

lemma removes_only_then_do:
  "removes_only P s (snd r) \<Longrightarrow> (\<And>s1. removes_only P s1 (snd (f s1))) \<Longrightarrow>
   removes_only P s (snd (then_do r f))"
  by (cases r) (auto simp: then_do_def intro: removes_only_trans split: option.splits)

lemma removes_only_remove_items:
  assumes "\<And>item. sel item \<Longrightarrow> P (py_join directory item)"
  shows "removes_only P s (snd (remove_items sel place directory files s))"
proof (induction files arbitrary: s)
  case Nil
  show ?case by (simp add: removes_only_refl)
next
  case (Cons item files)
  show ?case
  proof (cases "sel item")
    case True
    have "removes_only P s
        (snd (os_remove place item (py_join directory item)
                (print2 ''Deleting file '' (py_join directory item) s)))"
      using removes_only_trans [OF removes_only_print2 removes_only_os_remove] assms True
      by blast
    then show ?thesis
      using True Cons.IH by (simp add: removes_only_then_do)
  next
    case False
    then show ?thesis using Cons.IH by simp
  qed
qed

lemma removes_only_clean_directories:
  assumes "\<And>directory item. sel item \<Longrightarrow> P (py_join directory item)"
  shows "removes_only P s (snd (clean_directories sel out_path cdirs s))"
proof (induction cdirs arbitrary: s)
  case Nil
  show ?case by (simp add: removes_only_refl)
next
  case (Cons cdir cdirs)
  show ?case
  proof (cases "os_listdir (Some cdir) s")
    case (Inl e)
    then show ?thesis
      using Cons.IH by (cases e) (simp_all add: removes_only_refl)
  next
    case (Inr files)
    have "\<And>s1. removes_only P s1
        (snd (clean_directories sel out_path cdirs
                (rmdir_if_empty cdir (py_join out_path cdir) s1)))"
      using removes_only_trans [OF removes_only_rmdir_if_empty Cons.IH] .
    then have "removes_only P s
        (snd (then_do (remove_items sel (Some cdir) (py_join out_path cdir) files s)
                (\<lambda>s'. clean_directories sel out_path cdirs
                       (rmdir_if_empty cdir (py_join out_path cdir) s'))))"
      by (auto intro!: removes_only_then_do removes_only_remove_items assms)
    then show ?thesis
      using Inr by (simp add: Let_def)
  qed
qed

lemma removes_only_clean_germany:
  assumes "\<And>directory item. sel item \<Longrightarrow> P (py_join directory item)"
  shows "removes_only P s (snd (clean_germany sel out_path s))"
proof (cases "os_listdir (Some ''Germany/'') s")
  case (Inl e)
  then show ?thesis
    by (cases e) (simp_all add: clean_germany_def removes_only_refl removes_only_rmdir_if_empty)
next
  case (Inr files)
  have "removes_only P s
      (snd (then_do
              (remove_items sel (Some ''Germany/'') (py_join out_path ''Germany/'') files s)
              (\<lambda>s'. (None, rmdir_if_empty ''Germany/'' (py_join out_path ''Germany/'') s'))))"
    by (auto intro!: removes_only_then_do removes_only_remove_items assms
        removes_only_rmdir_if_empty)
  then show ?thesis
    using Inr by (simp add: clean_germany_def Let_def)
qed

lemma removes_only_clean_out_path:
  assumes "\<And>directory item. sel item \<Longrightarrow> P (py_join directory item)"
  shows "removes_only P s (snd (clean_out_path sel out_path s))"
proof (cases "if out_path = [] then Inl FileNotFoundError else os_listdir None s")
  case (Inl e)
  then show ?thesis
    by (cases e) (simp_all add: clean_out_path_def removes_only_refl)
next
  case (Inr files)
  then show ?thesis
    using assms by (simp add: clean_out_path_def removes_only_remove_items)
qed

lemma example_all_data:
  "removed_files (effects (snd (clean_data True False False False True ''data''
      \<lparr>tree = Some [(''Germany'', Dir [(''cases_rki.json'', False)]), (''all_jh.json'', File)],
       effects = []\<rparr>))) =
     [''data/Germany/cases_rki.json'', ''data/all_jh.json'']"
  by code_simp

lemma example_rki:
  "removed_files (effects (snd (clean_data False True False False False ''data''
      \<lparr>tree = Some [(''Germany'',
         Dir [(''cases_rki.json'', False), (''cases_rki.h5'', False), (''notes.txt'', False)])],
       effects = []\<rparr>))) =
     [''data/Germany/cases_rki.json'']"
  by code_simp

text \<open>
  C9, as the code has it. Without \<open>all_data\<close>, in the branches \<open>rki\<close>, \<open>population\<close>
  and \<open>john_hopkins\<close>, every file that \<open>clean_data\<close> removes has a path ending in
  \<open>h5\<close> when \<open>hdf5\<close> is set and in \<open>json\<close> when it is not, also when an error ends the
  call early. With \<open>all_data\<close> the flag is ignored: the files removed are files ending in
  \<open>.json\<close> or \<open>.h5\<close>, and the call does the same for both values of \<open>hdf5\<close>.
\<close>

theorem clean_data_extension:
  "(\<not> all_data \<longrightarrow>
      removes_only (\<lambda>path. endswith path (if hdf5 then ''h5'' else ''json'')) s
        (snd (clean_data all_data rki john_hopkins population hdf5 out_path s)))
   \<and> (all_data \<longrightarrow>
        removes_only (\<lambda>path. endswith path ''.json'' \<or> endswith path ''.h5'') s
          (snd (clean_data all_data rki john_hopkins population hdf5 out_path s))
        \<and> clean_data all_data rki john_hopkins population hdf5 out_path s =
            clean_data all_data rki john_hopkins population (\<not> hdf5) out_path s)"
proof (intro conjI impI)
  assume "\<not> all_data"
  then show "removes_only (\<lambda>path. endswith path (if hdf5 then ''h5'' else ''json'')) s
        (snd (clean_data all_data rki john_hopkins population hdf5 out_path s))"
    unfolding clean_data_def Let_def
    by (auto intro!: removes_only_then_do removes_only_clean_germany
        removes_only_clean_directories removes_only_clean_out_path removes_only_refl
        endswith_py_join
        simp: removes_only_def [of _ s "s\<lparr>effects := _\<rparr>"] removed_files_append)
next
  assume "all_data"
  then show "removes_only (\<lambda>path. endswith path ''.json'' \<or> endswith path ''.h5'') s
          (snd (clean_data all_data rki john_hopkins population hdf5 out_path s))"
    unfolding clean_data_def Let_def
    by (auto intro!: removes_only_then_do removes_only_clean_directories
        removes_only_clean_out_path endswith_py_join)
next
  assume "all_data"
  then show "clean_data all_data rki john_hopkins population hdf5 out_path s =
            clean_data all_data rki john_hopkins population (\<not> hdf5) out_path s"
    by (simp add: clean_data_def)
qed

text \<open>
  \<open>clean_data\<close> for \<open>rki\<close> with the \<open>json\<close> ending removes \<open>cases_rki.json\<close> and leaves
  \<open>cases_rki.h5\<close>; for \<open>all_data\<close> with the \<open>h5\<close> ending it removes files ending in
  \<open>.json\<close>.
\<close>

theorem clean_data_extension_witness:
  "removes_only (\<lambda>path. endswith path ''json'')
     \<lparr>tree = Some [(''Germany'',
        Dir [(''cases_rki.json'', False), (''cases_rki.h5'', False), (''notes.txt'', False)])],
      effects = []\<rparr>
     (snd (clean_data False True False False False ''data''
       \<lparr>tree = Some [(''Germany'',
          Dir [(''cases_rki.json'', False), (''cases_rki.h5'', False), (''notes.txt'', False)])],
        effects = []\<rparr>))
   \<and> removed_files (effects (snd (clean_data False True False False False ''data''
       \<lparr>tree = Some [(''Germany'',
          Dir [(''cases_rki.json'', False), (''cases_rki.h5'', False), (''notes.txt'', False)])],
        effects = []\<rparr>))) =
       [''data/Germany/cases_rki.json'']
   \<and> removes_only (\<lambda>path. endswith path ''.json'' \<or> endswith path ''.h5'')
       \<lparr>tree = Some [(''Germany'', Dir [(''cases_rki.json'', False)]), (''all_jh.json'', File)],
        effects = []\<rparr>
       (snd (clean_data True False False False True ''data''
         \<lparr>tree = Some [(''Germany'', Dir [(''cases_rki.json'', False)]), (''all_jh.json'', File)],
          effects = []\<rparr>))"
proof -
  have a: "removes_only (\<lambda>path. endswith path ''json'')
     \<lparr>tree = Some [(''Germany'',
        Dir [(''cases_rki.json'', False), (''cases_rki.h5'', False), (''notes.txt'', False)])],
      effects = []\<rparr>
     (snd (clean_data False True False False False ''data''
       \<lparr>tree = Some [(''Germany'',
          Dir [(''cases_rki.json'', False), (''cases_rki.h5'', False), (''notes.txt'', False)])],
        effects = []\<rparr>))"
    using clean_data_extension [of False False
      "\<lparr>tree = Some [(''Germany'',
          Dir [(''cases_rki.json'', False), (''cases_rki.h5'', False), (''notes.txt'', False)])],
        effects = []\<rparr>" True False False "''data''"]
    by simp
  have b: "removes_only (\<lambda>path. endswith path ''.json'' \<or> endswith path ''.h5'')
       \<lparr>tree = Some [(''Germany'', Dir [(''cases_rki.json'', False)]), (''all_jh.json'', File)],
        effects = []\<rparr>
       (snd (clean_data True False False False True ''data''
         \<lparr>tree = Some [(''Germany'', Dir [(''cases_rki.json'', False)]), (''all_jh.json'', File)],
          effects = []\<rparr>))"
    using clean_data_extension [of True True
      "\<lparr>tree = Some [(''Germany'', Dir [(''cases_rki.json'', False)]), (''all_jh.json'', File)],
        effects = []\<rparr>" False False False "''data''"]
    by blast
  show ?thesis
    using a b example_rki by blast
qed

text \<open>
  The claim C9 as written fails in the branch \<open>all_data\<close>: with \<open>hdf5\<close> set,
  \<open>clean_data\<close> removes \<open>Germany/cases_rki.json\<close> and \<open>all_jh.json\<close>, which do not end in
  \<open>h5\<close>.
\<close>

theorem all_data_ignores_extension:
  "removed_files (effects (snd (clean_data True False False False True ''data''
      \<lparr>tree = Some [(''Germany'', Dir [(''cases_rki.json'', False)]), (''all_jh.json'', File)],
       effects = []\<rparr>))) =
     [''data/Germany/cases_rki.json'', ''data/all_jh.json'']
   \<and> \<not> endswith ''data/Germany/cases_rki.json'' ''h5''
   \<and> \<not> endswith ''data/all_jh.json'' ''h5''"
  by (simp add: example_all_data endswith_def)

end
